theory Spec2Isabelle
  imports Main "HOL-Library.AList" "HOL-Library.Sublist" "HOL-Library.List_Lexorder"
    "HOL-Library.Char_ord"
begin

section \<open>Bundle generation (src/Bundle.ts): data\<close>

text \<open>
  The orchestrator of \<^verbatim>\<open>src/Bundle.ts\<close> drives collaborators whose code lives in other
  files (Chunk, PluginDriver, the module loader, the chunk-assignment algorithm, the
  warning handlers). Their behaviour is a parameter of the model: the record \<open>env\<close>
  below holds one function per collaborator call, and each call that runs plugin or
  collaborator code may fail (\<open>Inl\<close> is the thrown value).
\<close>

datatype error =
    ErrCannotAssignModuleToChunk string string string
      \<comment> \<open>\<open>errCannotAssignModuleToChunk(module.id, alias, existingAlias)\<close>\<close>
  | ErrInvalidOption string string "string option"
      \<comment> \<open>\<open>errInvalidOption(option, urlHash, explanation, value?)\<close>; the prose is left out\<close>
  | ErrExternal string
      \<comment> \<open>a value thrown by a collaborator or a plugin\<close>

record module =
  moduleId :: string
  isIncluded :: bool
  isEntry :: bool
  isUserDefinedEntryPoint :: bool
  includedDynamicImporters :: "string list"
  execIndex :: nat

text \<open>The values of \<open>graph.modulesById\<close>: \<open>Module\<close> or \<open>ExternalModule\<close> instances.\<close>

datatype graph_node = IsModule module | IsExternalModule string

record graph =
  modulesById :: "(string \<times> graph_node) list"
  entryModules :: "module list"

text \<open>
  \<open>outputOptions.manualChunks\<close> is either an object (alias to file list, in
  \<open>Object.entries\<close> order) or the \<open>GetManualChunk\<close> callback, which returns a
  string, or \<open>null\<close>/\<open>undefined\<close>, or throws.
\<close>

datatype manual_chunks =
    ManualChunksObject "(string \<times> string list) list"
  | ManualChunksFunction "string \<Rightarrow> error + string option"

record output_options =
  format :: string
  outputFile :: "string option"
  preserveModules :: bool
  inlineDynamicImports :: bool
  sourcemapFile :: "string option"
  amdAutoId :: bool
  amdId :: "string option"
  validate :: bool
  manualChunks :: manual_chunks

text \<open>
  A chunk object, as far as \<^verbatim>\<open>Bundle.ts\<close> reads and writes it. The constructor receives
  the ordered modules and the alias; \<open>chunkId\<close> is the field \<open>id\<close>, unset until
  \<open>assignChunkIds\<close> runs.
\<close>

record chunk =
  orderedModules :: "module list"
  manualChunkAlias :: "string option"
  facadeModule :: "module option"
  chunkEntryModules :: "module list"
  chunkId :: "string option"

text \<open>
  An entry of the output bundle: \<open>fileType\<close> is the property \<open>type\<close> (any string, or
  missing), \<open>code\<close> is present exactly when \<open>'code' in file\<close>.
\<close>

record output_file =
  fileType :: "string option"
  fileName :: string
  code :: "string option"
  sourceMap :: "string option"

text \<open>
  The bundle object maps file names to entries; its keys are kept in insertion order, as
  \<open>Object.values\<close> enumerates them (integer-like keys, which JavaScript moves to the
  front, are not distinguished).
\<close>

type_synonym output_bundle = "(string \<times> output_file) list"

text \<open>Modelled from the spec: the placeholder entry that reserves a file name
  (\<open>FILE_PLACEHOLDER\<close> of utils/outputBundle, not part of the sources at hand).\<close>

definition FILE_PLACEHOLDER :: output_file where
  "FILE_PLACEHOLDER =
     \<lparr>fileType = Some ''placeholder'', fileName = [], code = None, sourceMap = None\<rparr>"

datatype warning =
    WarnInvalidOption string string
  | WarnChunkInvalid output_file error

record addons =
  banner :: string
  footer :: string

text \<open>The calls the orchestrator makes, in the order it makes them.\<close>

datatype event =
    EvHookRenderStart
  | EvHookRenderError error
  | EvHookGenerateBundle bool
  | EvAddAdditionalModules "string list"
  | EvGetManualChunk string
  | EvGetChunkAssignments
  | EvNewChunk nat
  | EvLink nat
  | EvGenerateFacades nat
  | EvCreateAddons
  | EvGenerateExports nat
  | EvPreRender nat
  | EvGenerateId nat output_bundle
  | EvGenerateIdPreserveModules nat output_bundle
  | EvAssignId nat string
  | EvRender nat
  | EvWarnDeprecation
  | EvOnWarn warning
  | EvContextParse string
  | EvPluginFinaliseAssets

text \<open>
  The collaborators. A chunk method reads the whole list of chunks (a chunk is addressed
  by its position in it) and returns the new state of its own chunk.
\<close>

record env =
  hookRenderStart :: "output_bundle \<Rightarrow> error + output_bundle"
    \<comment> \<open>\<open>pluginDriver.hookParallel('renderStart', ...)\<close>; plugins may emit files\<close>
  hookRenderError :: "error \<Rightarrow> error + unit"
    \<comment> \<open>\<open>pluginDriver.hookParallel('renderError', [err])\<close>\<close>
  hookGenerateBundle :: "bool \<Rightarrow> output_bundle \<Rightarrow> error + output_bundle"
    \<comment> \<open>\<open>pluginDriver.hookSeq('generateBundle', [outputOptions, outputBundle, isWrite])\<close>\<close>
  addAdditionalModules :: "string list \<Rightarrow> error + module list"
    \<comment> \<open>\<open>graph.moduleLoader.addAdditionalModules(files)\<close>\<close>
  getChunkAssignments ::
    "module list \<Rightarrow> (module \<times> string) list \<Rightarrow> error + (string option \<times> module list) list"
    \<comment> \<open>\<open>getChunkAssignments(graph.entryModules, manualChunkAliasByEntry)\<close>\<close>
  entryModulesOfChunk :: "module list \<Rightarrow> module list"
    \<comment> \<open>the \<open>entryModules\<close> the constructor of \<open>Chunk\<close> finds\<close>
  chunkLink :: "chunk list \<Rightarrow> nat \<Rightarrow> error + chunk"
    \<comment> \<open>\<open>chunk.link()\<close>\<close>
  chunkGenerateFacades :: "chunk list \<Rightarrow> nat \<Rightarrow> error + chunk \<times> chunk list"
    \<comment> \<open>\<open>chunk.generateFacades()\<close>: the chunk's new state and the facade chunks\<close>
  createAddons :: "output_bundle \<Rightarrow> error + addons \<times> output_bundle"
    \<comment> \<open>\<open>createAddons(outputOptions, pluginDriver)\<close>\<close>
  chunkGenerateExports :: "chunk list \<Rightarrow> nat \<Rightarrow> error + chunk"
    \<comment> \<open>\<open>chunk.generateExports()\<close>\<close>
  chunkPreRender :: "string \<Rightarrow> chunk list \<Rightarrow> nat \<Rightarrow> error + chunk"
    \<comment> \<open>\<open>chunk.preRender(outputOptions, inputBase, snippets)\<close>\<close>
  chunkGenerateIdPreserveModules :: "string \<Rightarrow> chunk \<Rightarrow> output_bundle \<Rightarrow> error + string"
    \<comment> \<open>\<open>chunk.generateIdPreserveModules(inputBase, outputOptions, bundle, unsetOptions)\<close>\<close>
  chunkGenerateId :: "addons \<Rightarrow> chunk \<Rightarrow> output_bundle \<Rightarrow> error + string"
    \<comment> \<open>\<open>chunk.generateId(addons, outputOptions, bundle, true)\<close>\<close>
  getChunkInfoWithFileNames :: "chunk \<Rightarrow> output_file"
    \<comment> \<open>\<open>chunk.getChunkInfoWithFileNames()\<close>\<close>
  chunkRender :: "addons \<Rightarrow> chunk \<Rightarrow> output_file \<Rightarrow> error + string \<times> string option"
    \<comment> \<open>\<open>chunk.render(outputOptions, addons, outputChunk, snippets)\<close>: code and map\<close>
  contextParse :: "string \<Rightarrow> error + unit"
    \<comment> \<open>\<open>graph.contextParse(file.code, ...)\<close>\<close>
  warnDeprecation :: "error + unit"
    \<comment> \<open>\<open>warnDeprecation(message, true, inputOptions)\<close>\<close>
  onwarn :: "warning \<Rightarrow> error + unit"
    \<comment> \<open>\<open>inputOptions.onwarn(warning)\<close>\<close>
  pluginFinaliseAssets :: "output_bundle \<Rightarrow> error + unit"
    \<comment> \<open>\<open>pluginDriver.finaliseAssets()\<close>\<close>
  commondir :: "string list \<Rightarrow> string"
  basename :: "string \<Rightarrow> string"
  isAbsolute :: "string \<Rightarrow> bool"

section \<open>Running with a call log and failures\<close>

text \<open>
  A computation returns the calls it made and either the thrown value or its result.
  \<open>andThen\<close> is sequencing: a throw ends the computation, as an exception (or a
  rejected awaited promise) does.
\<close>

type_synonym 'a run = "event list \<times> (error + 'a)"

definition ret :: "'a \<Rightarrow> 'a run" where
  "ret x = ([], Inr x)"

definition throw :: "error \<Rightarrow> 'a run" where
  "throw e = ([], Inl e)"

definition call :: "event \<Rightarrow> error + 'a \<Rightarrow> 'a run" where
  "call ev r = ([ev], r)"

definition andThen :: "'a run \<Rightarrow> ('a \<Rightarrow> 'b run) \<Rightarrow> 'b run" where
  "andThen m f =
     (case m of
        (t, Inl e) \<Rightarrow> (t, Inl e)
      | (t, Inr x) \<Rightarrow> (case f x of (t', r) \<Rightarrow> (t @ t', r)))"

text \<open>A \<open>for\<close> loop over a list that updates a state and stops at the first throw.\<close>

fun forEach :: "('a \<Rightarrow> 's \<Rightarrow> 's run) \<Rightarrow> 'a list \<Rightarrow> 's \<Rightarrow> 's run" where
  "forEach f [] s = ret s"
| "forEach f (x # xs) s = andThen (f x s) (forEach f xs)"

text \<open>
  \<open>Promise.all\<close> over tasks that have all been started: every task's calls are made,
  and the result is the list of results or a failure. When several tasks fail,
  JavaScript surfaces the one that rejects first in time; the model takes the first in
  list order.
\<close>

fun promiseAll :: "'a run list \<Rightarrow> 'a list run" where
  "promiseAll [] = ([], Inr [])"
| "promiseAll ((t, r) # ms) =
     (case promiseAll ms of
        (t', rs) \<Rightarrow>
          (t @ t',
           case r of
             Inl e \<Rightarrow> Inl e
           | Inr x \<Rightarrow> (case rs of Inl e' \<Rightarrow> Inl e' | Inr xs \<Rightarrow> Inr (x # xs))))"

section \<open>Manual chunks\<close>

text \<open>\<open>manualChunkAliasByEntry\<close> is a \<open>Map<Module, string>\<close>, kept in insertion order.\<close>

type_synonym alias_map = "(module \<times> string) list"

definition addModuleToManualChunk :: "string \<Rightarrow> module \<Rightarrow> alias_map \<Rightarrow> error + alias_map" where
  "addModuleToManualChunk alias m manualChunkAliasByEntry =
     (case map_of manualChunkAliasByEntry m of
        Some existingAlias \<Rightarrow>
          if existingAlias \<noteq> alias
          then Inl (ErrCannotAssignModuleToChunk (moduleId m) alias existingAlias)
          else Inr (AList.update m alias manualChunkAliasByEntry)
      | None \<Rightarrow> Inr (AList.update m alias manualChunkAliasByEntry))"

text \<open>The inner loop of \<open>addManualChunks\<close>: one alias, its resolved entries.\<close>

fun addEntriesToManualChunk :: "string \<Rightarrow> module list \<Rightarrow> alias_map \<Rightarrow> error + alias_map" where
  "addEntriesToManualChunk alias [] am = Inr am"
| "addEntriesToManualChunk alias (entry # entries) am =
     (case addModuleToManualChunk alias entry am of
        Inl e \<Rightarrow> Inl e
      | Inr am' \<Rightarrow> addEntriesToManualChunk alias entries am')"

fun addChunkEntries :: "(string \<times> module list) list \<Rightarrow> alias_map \<Rightarrow> error + alias_map" where
  "addChunkEntries [] am = Inr am"
| "addChunkEntries ((alias, entries) # rest) am =
     (case addEntriesToManualChunk alias entries am of
        Inl e \<Rightarrow> Inl e
      | Inr am' \<Rightarrow> addChunkEntries rest am')"

definition addManualChunks :: "env \<Rightarrow> (string \<times> string list) list \<Rightarrow> alias_map run" where
  "addManualChunks E manualChunksObject =
     andThen
       (promiseAll
          (map (\<lambda>(alias, files).
                  andThen (call (EvAddAdditionalModules files) (addAdditionalModules E files))
                    (\<lambda>entries. ret (alias, entries)))
             manualChunksObject))
       (\<lambda>chunkEntries. ([], addChunkEntries chunkEntries []))"

text \<open>
  \<open>assignManualChunks\<close>: the callback is asked for every \<open>Module\<close> of the graph, the
  pairs are sorted by alias (\<open>Array.prototype.sort\<close> is stable, and so is \<open>sort_key\<close>;
  aliases are compared as strings, here character by character), then inserted.
\<close>

fun collectManualChunkAliases ::
  "(string \<Rightarrow> error + string option) \<Rightarrow> graph_node list \<Rightarrow> (string \<times> module) list run" where
  "collectManualChunkAliases getManualChunk [] = ret []"
| "collectManualChunkAliases getManualChunk (IsExternalModule x # nodes) =
     collectManualChunkAliases getManualChunk nodes"
| "collectManualChunkAliases getManualChunk (IsModule m # nodes) =
     andThen (call (EvGetManualChunk (moduleId m)) (getManualChunk (moduleId m)))
       (\<lambda>manualChunkAlias.
          andThen (collectManualChunkAliases getManualChunk nodes)
            (\<lambda>rest. ret (case manualChunkAlias of
                             Some alias \<Rightarrow> (alias, m) # rest
                           | None \<Rightarrow> rest)))"

fun addAliasesWithEntry :: "(string \<times> module) list \<Rightarrow> alias_map \<Rightarrow> error + alias_map" where
  "addAliasesWithEntry [] am = Inr am"
| "addAliasesWithEntry ((alias, m) # rest) am =
     (case addModuleToManualChunk alias m am of
        Inl e \<Rightarrow> Inl e
      | Inr am' \<Rightarrow> addAliasesWithEntry rest am')"

definition assignManualChunks ::
  "graph \<Rightarrow> (string \<Rightarrow> error + string option) \<Rightarrow> alias_map run" where
  "assignManualChunks G getManualChunk =
     andThen (collectManualChunkAliases getManualChunk (map snd (modulesById G)))
       (\<lambda>manualChunkAliasesWithEntry.
          ([], addAliasesWithEntry (sort_key fst manualChunkAliasesWithEntry) []))"

section \<open>Chunk generation\<close>

definition getIncludedModules :: "(string \<times> graph_node) list \<Rightarrow> module list" where
  "getIncludedModules modulesById' =
     List.map_filter
       (\<lambda>node. case node of
                 IsModule m \<Rightarrow>
                   if isIncluded m \<or> isEntry m \<or> length (includedDynamicImporters m) > 0
                   then Some m else None
               | IsExternalModule x \<Rightarrow> None)
       (map snd modulesById')"

text \<open>Modelled from the spec: \<open>sortByExecutionOrder\<close> of utils/executionOrder is not
  part of the sources at hand; the spec has the modules of a group reordered into
  execution order, ties broken by the original order. The execution index of a module is
  its field \<open>execIndex\<close>.\<close>

definition sortByExecutionOrder :: "module list \<Rightarrow> module list" where
  "sortByExecutionOrder modules = sort_key execIndex modules"

text \<open>Modelled from the spec: the constructor of \<open>Chunk\<close> is not part of the sources at
  hand; the spec has a chunk hold its ordered modules and its optional alias, its identity
  unset and no facade module chosen yet. The entry modules it finds among its modules
  are left to the collaborator.\<close>

definition newChunk :: "env \<Rightarrow> module list \<Rightarrow> string option \<Rightarrow> chunk" where
  "newChunk E modules alias =
     \<lparr>orderedModules = modules, manualChunkAlias = alias, facadeModule = None,
      chunkEntryModules = entryModulesOfChunk E modules, chunkId = None\<rparr>"

text \<open>The groups the loop of \<open>generateChunks\<close> iterates over: \<open>inlineDynamicImports\<close>
  is tested first, then \<open>preserveModules\<close>, else \<open>getChunkAssignments\<close> decides.\<close>

definition chunkGroups ::
  "env \<Rightarrow> output_options \<Rightarrow> graph \<Rightarrow> alias_map \<Rightarrow> (string option \<times> module list) list run" where
  "chunkGroups E opts G manualChunkAliasByEntry =
     (if inlineDynamicImports opts
      then ret [(None, getIncludedModules (modulesById G))]
      else if preserveModules opts
      then ret (map (\<lambda>m. (None, [m])) (getIncludedModules (modulesById G)))
      else call EvGetChunkAssignments
             (getChunkAssignments E (entryModules G) manualChunkAliasByEntry))"

fun createChunks ::
  "env \<Rightarrow> (string option \<times> module list) list \<Rightarrow> chunk list \<Rightarrow> chunk list run" where
  "createChunks E [] chunks = ret chunks"
| "createChunks E ((alias, modules) # groups) chunks =
     andThen (call (EvNewChunk (length chunks))
                (Inr (newChunk E (sortByExecutionOrder modules) alias)))
       (\<lambda>c. createChunks E groups (chunks @ [c]))"

definition linkChunks :: "env \<Rightarrow> chunk list \<Rightarrow> chunk list run" where
  "linkChunks E chunks =
     forEach (\<lambda>i cs. andThen (call (EvLink i) (chunkLink E cs i)) (\<lambda>c. ret (cs[i := c])))
       [0..<length chunks] chunks"

definition generateFacadesOfChunks :: "env \<Rightarrow> chunk list \<Rightarrow> (chunk list \<times> chunk list) run" where
  "generateFacadesOfChunks E chunks =
     forEach
       (\<lambda>i (cs, facades).
          andThen (call (EvGenerateFacades i) (chunkGenerateFacades E cs i))
            (\<lambda>(c, fs). ret (cs[i := c], facades @ fs)))
       [0..<length chunks] (chunks, [])"

definition manualChunkAliases :: "env \<Rightarrow> output_options \<Rightarrow> graph \<Rightarrow> alias_map run" where
  "manualChunkAliases E opts G =
     (case manualChunks opts of
        ManualChunksObject manualChunksObject \<Rightarrow> addManualChunks E manualChunksObject
      | ManualChunksFunction getManualChunk \<Rightarrow> assignManualChunks G getManualChunk)"

definition generateChunks :: "env \<Rightarrow> output_options \<Rightarrow> graph \<Rightarrow> chunk list run" where
  "generateChunks E opts G =
     andThen (manualChunkAliases E opts G) (\<lambda>manualChunkAliasByEntry.
     andThen (chunkGroups E opts G manualChunkAliasByEntry) (\<lambda>groups.
     andThen (createChunks E groups []) (\<lambda>chunks.
     andThen (linkChunks E chunks) (\<lambda>chunks.
     andThen (generateFacadesOfChunks E chunks) (\<lambda>(chunks, facades).
     ret (chunks @ facades))))))"

definition getAbsoluteEntryModulePaths :: "env \<Rightarrow> chunk list \<Rightarrow> string list" where
  "getAbsoluteEntryModulePaths E chunks =
     concat (map (\<lambda>c. filter (isAbsolute E) (map moduleId (chunkEntryModules c))) chunks)"

text \<open>A JavaScript string-valued option is truthy when it is set and not empty.\<close>

definition truthy :: "string option \<Rightarrow> bool" where
  "truthy v = (case v of None \<Rightarrow> False | Some s \<Rightarrow> s \<noteq> [])"

definition validateOptionsForMultiChunkOutput :: "env \<Rightarrow> output_options \<Rightarrow> unit run" where
  "validateOptionsForMultiChunkOutput E opts =
     (if format opts = ''umd'' \<or> format opts = ''iife''
      then throw (ErrInvalidOption ''output.format'' ''outputformat'' (Some (format opts)))
      else if outputFile opts \<noteq> None
      then throw (ErrInvalidOption ''output.file'' ''outputdir'' None)
      else if truthy (sourcemapFile opts)
      then throw (ErrInvalidOption ''output.sourcemapFile'' ''outputsourcemapfile'' None)
      else if \<not> amdAutoId opts \<and> truthy (amdId opts)
      then call (EvOnWarn (WarnInvalidOption ''output.amd.id'' ''outputamd''))
             (onwarn E (WarnInvalidOption ''output.amd.id'' ''outputamd''))
      else ret ())"

section \<open>Pre-render, identities, render\<close>

definition prerenderChunks :: "env \<Rightarrow> chunk list \<Rightarrow> string \<Rightarrow> chunk list run" where
  "prerenderChunks E chunks inputBase =
     andThen
       (forEach
          (\<lambda>i cs. andThen (call (EvGenerateExports i) (chunkGenerateExports E cs i))
                    (\<lambda>c. ret (cs[i := c])))
          [0..<length chunks] chunks)
       (forEach
          (\<lambda>i cs. andThen (call (EvPreRender i) (chunkPreRender E inputBase cs i))
                    (\<lambda>c. ret (cs[i := c])))
          [0..<length chunks])"

definition isEntryChunk :: "chunk \<Rightarrow> bool" where
  "isEntryChunk c =
     (case facadeModule c of Some m \<Rightarrow> isUserDefinedEntryPoint m | None \<Rightarrow> False)"

definition chooseChunkId ::
  "env \<Rightarrow> output_options \<Rightarrow> string \<Rightarrow> addons \<Rightarrow> nat \<Rightarrow> chunk \<Rightarrow> output_bundle \<Rightarrow> string run" where
  "chooseChunkId E opts inputBase ad i c b =
     (case outputFile opts of
        Some f \<Rightarrow>
          if f \<noteq> [] then ret (basename E f)
          else if preserveModules opts
          then call (EvGenerateIdPreserveModules i b)
                 (chunkGenerateIdPreserveModules E inputBase c b)
          else call (EvGenerateId i b) (chunkGenerateId E ad c b)
      | None \<Rightarrow>
          if preserveModules opts
          then call (EvGenerateIdPreserveModules i b)
                 (chunkGenerateIdPreserveModules E inputBase c b)
          else call (EvGenerateId i b) (chunkGenerateId E ad c b))"

text \<open>The body of the naming loop: \<open>chunk.id = ...; bundle[chunk.id] = FILE_PLACEHOLDER\<close>.\<close>

definition assignChunkId ::
  "env \<Rightarrow> output_options \<Rightarrow> string \<Rightarrow> addons \<Rightarrow> nat \<Rightarrow> chunk list \<times> output_bundle \<Rightarrow>
     (chunk list \<times> output_bundle) run" where
  "assignChunkId E opts inputBase ad i st =
     (case st of
        (cs, b) \<Rightarrow>
          andThen (chooseChunkId E opts inputBase ad i (cs ! i) b) (\<lambda>newId.
          andThen (call (EvAssignId i newId) (Inr ())) (\<lambda>u.
          ret (cs[i := (cs ! i)\<lparr>chunkId := Some newId\<rparr>], AList.update newId FILE_PLACEHOLDER b))))"

definition chunksForNaming :: "chunk list \<Rightarrow> nat list" where
  "chunksForNaming chunks =
     (let entryChunks = filter (\<lambda>i. isEntryChunk (chunks ! i)) [0..<length chunks];
          otherChunks = filter (\<lambda>i. \<not> isEntryChunk (chunks ! i)) [0..<length chunks]
      in entryChunks @ otherChunks)"

definition assignChunkIds ::
  "env \<Rightarrow> output_options \<Rightarrow> chunk list \<Rightarrow> string \<Rightarrow> addons \<Rightarrow> output_bundle \<Rightarrow>
     (chunk list \<times> output_bundle) run" where
  "assignChunkIds E opts chunks inputBase ad b =
     forEach (assignChunkId E opts inputBase ad) (chunksForNaming chunks) (chunks, b)"

text \<open>\<open>chunk.id!\<close> as a property key: an unset id would be the key \<open>undefined\<close>.\<close>

definition idKey :: "chunk \<Rightarrow> string" where
  "idKey c = (case chunkId c of Some s \<Rightarrow> s | None \<Rightarrow> ''undefined'')"

definition addChunkInfos :: "env \<Rightarrow> chunk list \<Rightarrow> output_bundle \<Rightarrow> output_bundle" where
  "addChunkInfos E chunks b =
     fold (\<lambda>c b'. AList.update (idKey c) (getChunkInfoWithFileNames E c) b') chunks b"

text \<open>One task of the \<open>Promise.all\<close> of \<open>addFinalizedChunksToBundle\<close>: it reads
  \<open>bundle[chunk.id]\<close>, calls \<open>chunk.render\<close> and merges the result into that entry
  (\<open>Object.assign\<close>). The task's result is the key and the merged entry.\<close>

definition renderTask ::
  "env \<Rightarrow> addons \<Rightarrow> chunk list \<Rightarrow> output_bundle \<Rightarrow> nat \<Rightarrow> (string \<times> output_file) run" where
  "renderTask E ad chunks b i =
     (case map_of b (idKey (chunks ! i)) of
        Some outputChunk \<Rightarrow>
          andThen (call (EvRender i) (chunkRender E ad (chunks ! i) outputChunk))
            (\<lambda>(c, m). ret (idKey (chunks ! i), outputChunk\<lparr>code := Some c, sourceMap := m\<rparr>))
      | None \<Rightarrow> throw (ErrExternal ''TypeError''))"

definition addFinalizedChunksToBundle ::
  "env \<Rightarrow> output_options \<Rightarrow> chunk list \<Rightarrow> string \<Rightarrow> addons \<Rightarrow> output_bundle \<Rightarrow>
     output_bundle run" where
  "addFinalizedChunksToBundle E opts chunks inputBase ad b =
     andThen (assignChunkIds E opts chunks inputBase ad b) (\<lambda>(cs, b1).
     andThen (promiseAll (map (renderTask E ad cs (addChunkInfos E cs b1)) [0..<length cs]))
       (\<lambda>rendered.
          ret (fold (\<lambda>(k, f) b'. AList.update k f b') rendered (addChunkInfos E cs b1))))"

section \<open>Validation of the finished bundle\<close>

definition finaliseFile :: "env \<Rightarrow> output_options \<Rightarrow> output_file \<Rightarrow> output_file run" where
  "finaliseFile E opts f =
     andThen
       (if \<not> truthy (fileType f)
        then andThen (call EvWarnDeprecation (warnDeprecation E))
               (\<lambda>u. ret (f\<lparr>fileType := Some ''asset''\<rparr>))
        else ret f)
       (\<lambda>f'.
          andThen
            (case code f' of
               Some c \<Rightarrow>
                 if validate opts
                 then (case contextParse E c of
                         Inl err \<Rightarrow>
                           ([EvContextParse c, EvOnWarn (WarnChunkInvalid f' err)],
                            onwarn E (WarnChunkInvalid f' err))
                       | Inr u \<Rightarrow> ([EvContextParse c], Inr ()))
                 else ret ()
             | None \<Rightarrow> ret ())
            (\<lambda>u. ret f'))"

fun finaliseFiles :: "env \<Rightarrow> output_options \<Rightarrow> output_bundle \<Rightarrow> output_bundle run" where
  "finaliseFiles E opts [] = ret []"
| "finaliseFiles E opts ((name, f) # files) =
     andThen (finaliseFile E opts f) (\<lambda>f'.
     andThen (finaliseFiles E opts files) (\<lambda>files'. ret ((name, f') # files')))"

definition finaliseAssets :: "env \<Rightarrow> output_options \<Rightarrow> output_bundle \<Rightarrow> output_bundle run" where
  "finaliseAssets E opts outputBundle =
     andThen (finaliseFiles E opts outputBundle) (\<lambda>b.
     andThen (call EvPluginFinaliseAssets (pluginFinaliseAssets E b)) (\<lambda>u. ret b))"

section \<open>The pipeline\<close>

text \<open>The body of the \<open>try\<close> block of \<open>generate\<close>. The bundle starts empty
  (\<open>Object.create(null)\<close>); the proxy around it, \<open>setOutputBundle\<close> and the timers are
  left out, and the code snippets, which depend on the output options only, are part of
  the collaborators that receive them.\<close>

definition generateTryBlock :: "env \<Rightarrow> output_options \<Rightarrow> graph \<Rightarrow> output_bundle run" where
  "generateTryBlock E opts G =
     andThen (call EvHookRenderStart (hookRenderStart E [])) (\<lambda>b.
     andThen (generateChunks E opts G) (\<lambda>chunks.
     andThen (if length chunks > 1 then validateOptionsForMultiChunkOutput E opts else ret ())
       (\<lambda>u.
     andThen (call EvCreateAddons (createAddons E b)) (\<lambda>(ad, b').
     andThen (prerenderChunks E chunks (commondir E (getAbsoluteEntryModulePaths E chunks)))
       (\<lambda>chunks'.
     addFinalizedChunksToBundle E opts chunks'
       (commondir E (getAbsoluteEntryModulePaths E chunks)) ad b')))))"

text \<open>\<open>generate\<close>: the \<open>catch\<close> clause awaits the \<open>renderError\<close> hook and then rethrows;
  a hook that itself rejects replaces the thrown value.\<close>

definition generate :: "env \<Rightarrow> output_options \<Rightarrow> graph \<Rightarrow> bool \<Rightarrow> output_bundle run" where
  "generate E opts G isWrite =
     (case generateTryBlock E opts G of
        (t, Inl err) \<Rightarrow>
          (t @ [EvHookRenderError err],
           case hookRenderError E err of Inl err' \<Rightarrow> Inl err' | Inr u \<Rightarrow> Inl err)
      | (t, Inr b) \<Rightarrow>
          andThen (t, Inr b) (\<lambda>b.
          andThen (call (EvHookGenerateBundle isWrite) (hookGenerateBundle E isWrite b))
            (finaliseAssets E opts)))"

section \<open>Notions used to state the properties\<close>



section \<open>Example inputs\<close>

definition exModuleA :: module where
  "exModuleA = \<lparr>moduleId = ''/src/a.js'', isIncluded = True, isEntry = True,
     isUserDefinedEntryPoint = True, includedDynamicImporters = [], execIndex = 0\<rparr>"

definition exModuleB :: module where
  "exModuleB = \<lparr>moduleId = ''/src/b.js'', isIncluded = True, isEntry = False,
     isUserDefinedEntryPoint = False, includedDynamicImporters = [], execIndex = 1\<rparr>"

definition exGraph :: graph where
  "exGraph = \<lparr>modulesById = [(''/src/a.js'', IsModule exModuleA),
       (''lodash'', IsExternalModule ''lodash''), (''/src/b.js'', IsModule exModuleB)],
     entryModules = [exModuleA]\<rparr>"

definition exResolve :: "string list \<Rightarrow> module list" where
  "exResolve files = List.map_filter
     (\<lambda>f. if f = ''a.js'' then Some exModuleA else if f = ''b.js'' then Some exModuleB else None)
     files"

text \<open>An environment in which every collaborator succeeds: the non-entry module comes
  first in the partition, a facade module is the entry module of a chunk, generated names
  avoid the names already in the bundle, a chunk's code is its file name, and the code
  \<open>chunk2.js\<close> does not parse.\<close>

definition exEnv :: env where
  "exEnv = \<lparr>
     hookRenderStart = Inr,
     hookRenderError = (\<lambda>e. Inr ()),
     hookGenerateBundle = (\<lambda>w b. Inr b),
     addAdditionalModules = (\<lambda>files. Inr (exResolve files)),
     getChunkAssignments = (\<lambda>entries am. Inr [(None, [exModuleB]), (None, [exModuleA])]),
     entryModulesOfChunk = filter isEntry,
     chunkLink = (\<lambda>cs i. Inr (cs ! i)),
     chunkGenerateFacades =
       (\<lambda>cs i. Inr ((cs ! i)\<lparr>facadeModule := find isEntry (orderedModules (cs ! i))\<rparr>, [])),
     createAddons = (\<lambda>b. Inr (\<lparr>banner = [], footer = []\<rparr>, b)),
     chunkGenerateExports = (\<lambda>cs i. Inr (cs ! i)),
     chunkPreRender = (\<lambda>base cs i. Inr (cs ! i)),
     chunkGenerateIdPreserveModules =
       (\<lambda>base c b. Inr (concat (map moduleId (orderedModules c)))),
     chunkGenerateId =
       (\<lambda>ad c b. Inr (if map_of b ''chunk.js'' = None then ''chunk.js''
                     else if map_of b ''chunk2.js'' = None then ''chunk2.js'' else ''chunk3.js'')),
     getChunkInfoWithFileNames =
       (\<lambda>c. \<lparr>fileType = Some ''chunk'', fileName = idKey c, code = None, sourceMap = None\<rparr>),
     chunkRender = (\<lambda>ad c f. Inr (fileName f, None)),
     contextParse =
       (\<lambda>c. if c = ''chunk2.js'' then Inl (ErrExternal ''SyntaxError'') else Inr ()),
     warnDeprecation = Inr (),
     onwarn = (\<lambda>w. Inr ()),
     pluginFinaliseAssets = (\<lambda>b. Inr ()),
     commondir = (\<lambda>ps. ''/''),
     basename = (\<lambda>p. p),
     isAbsolute = (\<lambda>p. take 1 p = ''/'')\<rparr>"

definition exOptions :: output_options where
  "exOptions = \<lparr>format = ''es'', outputFile = None, preserveModules = False,
     inlineDynamicImports = False, sourcemapFile = None, amdAutoId = False, amdId = None,
     validate = True, manualChunks = ManualChunksObject []\<rparr>"



text \<open>The chunks named by a call log, in the order they were named.\<close>

fun assignedChunks :: "event list \<Rightarrow> nat list" where
  "assignedChunks [] = []"
| "assignedChunks (EvAssignId i n # t) = i # assignedChunks t"
| "assignedChunks (ev # t) = assignedChunks t"

definition exChunks :: "chunk list" where
  "exChunks =
     [newChunk exEnv [exModuleB] None,
      (newChunk exEnv [exModuleA] None)\<lparr>facadeModule := Some exModuleA\<rparr>,
      (newChunk exEnv [exModuleB] (Some ''lib''))\<lparr>facadeModule := Some exModuleB\<rparr>]"

text \<open>As \<open>exEnv\<close>, but every chunk asks for one facade chunk, whose facade module is the
  chunk's first module.\<close>

definition exEnvFacades :: env where
  "exEnvFacades = exEnv\<lparr>chunkGenerateFacades :=
     (\<lambda>cs i. Inr (cs ! i,
        [(newChunk exEnv [] None)\<lparr>facadeModule := Some (hd (orderedModules (cs ! i)))\<rparr>]))\<rparr>"

text \<open>Every call that generates a name sees a placeholder at every name assigned
  earlier in the call log; \<open>reserved\<close> holds the names assigned so far.\<close>

fun reservationsObserved :: "string list \<Rightarrow> event list \<Rightarrow> bool" where
  "reservationsObserved reserved [] = True"
| "reservationsObserved reserved (EvAssignId i n # t) = reservationsObserved (n # reserved) t"
| "reservationsObserved reserved (EvGenerateId i b # t) =
     ((\<forall>n \<in> set reserved. map_of b n = Some FILE_PLACEHOLDER) \<and> reservationsObserved reserved t)"
| "reservationsObserved reserved (EvGenerateIdPreserveModules i b # t) =
     ((\<forall>n \<in> set reserved. map_of b n = Some FILE_PLACEHOLDER) \<and> reservationsObserved reserved t)"
| "reservationsObserved reserved (ev # t) = reservationsObserved reserved t"

text \<open>The step of the pipeline a call belongs to: 1 the \<open>renderStart\<close> hook, 2 chunk
  generation and the validation of the options for several chunks, 3 addons, 4 export
  generation, 5 pre-render, 6 naming, 7 render, 8 what follows the \<open>try\<close> block (the
  \<open>renderError\<close> hook or the \<open>generateBundle\<close> hook), 9 the validation of the bundle.\<close>

fun phase :: "event \<Rightarrow> nat" where
  "phase EvHookRenderStart = 1"
| "phase (EvAddAdditionalModules files) = 2"
| "phase (EvGetManualChunk i) = 2"
| "phase EvGetChunkAssignments = 2"
| "phase (EvNewChunk i) = 2"
| "phase (EvLink i) = 2"
| "phase (EvGenerateFacades i) = 2"
| "phase (EvOnWarn (WarnInvalidOption option url)) = 2"
| "phase EvCreateAddons = 3"
| "phase (EvGenerateExports i) = 4"
| "phase (EvPreRender i) = 5"
| "phase (EvGenerateId i b) = 6"
| "phase (EvGenerateIdPreserveModules i b) = 6"
| "phase (EvAssignId i n) = 6"
| "phase (EvRender i) = 7"
| "phase (EvHookRenderError e) = 8"
| "phase (EvHookGenerateBundle w) = 8"
| "phase EvWarnDeprecation = 9"
| "phase (EvContextParse c) = 9"
| "phase (EvOnWarn (WarnChunkInvalid f e)) = 9"
| "phase EvPluginFinaliseAssets = 9"

definition inPhases :: "nat \<Rightarrow> nat \<Rightarrow> event list \<Rightarrow> bool" where
  "inPhases lo hi t = (sorted (map phase t) \<and> (\<forall>ev \<in> set t. lo \<le> phase ev \<and> phase ev \<le> hi))"

definition exAddons :: addons where
  "exAddons = \<lparr>banner = [], footer = []\<rparr>"

text \<open>What \<open>finaliseAssets\<close> is meant to do to one entry: an entry whose \<open>type\<close> is
  missing or empty becomes an asset.\<close>

definition coerceLegacy :: "output_file \<Rightarrow> output_file" where
  "coerceLegacy f = (if truthy (fileType f) then f else f\<lparr>fileType := Some ''asset''\<rparr>)"

text \<open>The calls \<open>finaliseAssets\<close> is meant to make for one entry: the deprecation notice
  for an entry without a type, then, when validation is on and the entry has code, the
  parse of the code and, if it fails, the warning.\<close>

definition validationCalls :: "env \<Rightarrow> output_options \<Rightarrow> output_file \<Rightarrow> event list" where
  "validationCalls E opts f =
     (if truthy (fileType f) then [] else [EvWarnDeprecation]) @
     (case code f of
        Some c \<Rightarrow>
          if validate opts
          then (case contextParse E c of
                  Inl err \<Rightarrow> [EvContextParse c, EvOnWarn (WarnChunkInvalid (coerceLegacy f) err)]
                | Inr u \<Rightarrow> [EvContextParse c])
          else []
      | None \<Rightarrow> [])"

text \<open>Environments in which one collaborator fails, and a bundle with an entry that a
  plugin assigned directly.\<close>

definition exEnvLinkFails :: env where
  "exEnvLinkFails = exEnv\<lparr>chunkLink := (\<lambda>cs i. Inl (ErrExternal ''link failed'')),
     hookRenderError := (\<lambda>e. Inl (ErrExternal ''hook failed''))\<rparr>"

definition exEnvRenderFails :: env where
  "exEnvRenderFails = exEnv\<lparr>chunkRender := (\<lambda>ad c f. Inl (ErrExternal ''render failed''))\<rparr>"

definition exEnvStartFails :: env where
  "exEnvStartFails = exEnv\<lparr>hookRenderStart := (\<lambda>b. Inl (ErrExternal ''start failed''))\<rparr>"

definition exEnvBundleHookFails :: env where
  "exEnvBundleHookFails =
     exEnv\<lparr>hookGenerateBundle := (\<lambda>w b. Inl (ErrExternal ''generateBundle failed''))\<rparr>"

definition exEnvAssetsFail :: env where
  "exEnvAssetsFail =
     exEnv\<lparr>pluginFinaliseAssets := (\<lambda>b. Inl (ErrExternal ''asset source not set''))\<rparr>"

definition exLegacyBundle :: output_bundle where
  "exLegacyBundle =
     [(''notes.txt'', \<lparr>fileType = None, fileName = ''notes.txt'', code = None, sourceMap = None\<rparr>),
      (''chunk2.js'', \<lparr>fileType = Some ''chunk'', fileName = ''chunk2.js'',
         code = Some ''chunk2.js'', sourceMap = None\<rparr>),
      (''data.bin'', \<lparr>fileType = Some ''blob'', fileName = ''data.bin'', code = None,
         sourceMap = None\<rparr>)]"

definition exEnvLegacy :: env where
  "exEnvLegacy = exEnv\<lparr>hookGenerateBundle :=
     (\<lambda>w b. Inr (b @ [(''notes.txt'',
        \<lparr>fileType = None, fileName = ''notes.txt'', code = None, sourceMap = None\<rparr>)]))\<rparr>"

definition exGenLog :: "event list" where
  "exGenLog = [EvGetChunkAssignments, EvNewChunk 0, EvNewChunk 1, EvLink 0, EvLink 1,
     EvGenerateFacades 0, EvGenerateFacades 1]"

definition exTryLog :: "event list" where
  "exTryLog = EvHookRenderStart # exGenLog @
     [EvCreateAddons, EvGenerateExports 0, EvGenerateExports 1, EvPreRender 0, EvPreRender 1,
      EvGenerateId 1 [], EvAssignId 1 ''chunk.js'',
      EvGenerateId 0 [(''chunk.js'', FILE_PLACEHOLDER)], EvAssignId 0 ''chunk2.js'',
      EvRender 0, EvRender 1]"

definition exBundle :: output_bundle where
  "exBundle =
     [(''chunk.js'', \<lparr>fileType = Some ''chunk'', fileName = ''chunk.js'',
         code = Some ''chunk.js'', sourceMap = None\<rparr>),
      (''chunk2.js'', \<lparr>fileType = Some ''chunk'', fileName = ''chunk2.js'',
         code = Some ''chunk2.js'', sourceMap = None\<rparr>)]"

section \<open>Sequencing\<close>

lemma andThen_Inl [simp]: "andThen (t, Inl e) f = (t, Inl e)"
  by (simp add: andThen_def)

lemma andThen_Inr [simp]: "andThen (t, Inr x) f = (t @ fst (f x), snd (f x))"
  by (simp add: andThen_def split: prod.splits)

lemma andThen_ret [simp]: "andThen (ret x) f = f x"
  by (simp add: ret_def)

lemma andThen_call_Inr [simp]: "andThen (call ev (Inr x)) f = (ev # fst (f x), snd (f x))"
  by (simp add: call_def)

lemma andThen_call_Inl [simp]: "andThen (call ev (Inl e)) f = ([ev], Inl e)"
  by (simp add: call_def)


lemma generate_failed:
  "generateTryBlock E opts G = (t, Inl err) \<Longrightarrow>
     generate E opts G w =
       (t @ [EvHookRenderError err],
        case hookRenderError E err of Inl err' \<Rightarrow> Inl err' | Inr u \<Rightarrow> Inl err)"
  by (simp add: generate_def)

section \<open>Manual chunks: conflicting assignments\<close>












section \<open>Loops over the chunks\<close>

lemma createChunks_eq:
  "createChunks E groups acc =
     (map EvNewChunk [length acc..<length acc + length groups],
      Inr (acc @ map (\<lambda>(alias, modules). newChunk E (sortByExecutionOrder modules) alias) groups))"
proof (induction groups arbitrary: acc)
  case Nil
  then show ?case by (simp add: ret_def)
next
  case (Cons g groups)
  obtain al modules where g: "g = (al, modules)" by (cases g)
  show ?case
    by (simp add: g Cons.IH upt_conv_Cons del: upt_Suc)
qed




lemma fst_ret [simp]: "fst (ret x) = []"
  by (simp add: ret_def)

lemma snd_ret [simp]: "snd (ret x) = Inr x"
  by (simp add: ret_def)

lemma facades_loop:
  assumes "forEach
       (\<lambda>i (cs, facades).
          andThen (call (EvGenerateFacades i) (chunkGenerateFacades E cs i))
            (\<lambda>(c, fs). ret (cs[i := c], facades @ fs)))
       [k..<n] (st, fs0) = (t, Inr (cs', fs'))"
    and "length st = n"
  shows "length cs' = n \<and> (\<forall>i<k. cs' ! i = st ! i) \<and>
     (\<forall>i. k \<le> i \<and> i < n \<longrightarrow>
        (\<exists>fs. chunkGenerateFacades E (take i cs' @ drop i st) i = Inr (cs' ! i, fs))) \<and>
     fs' = fs0 @ concat (map (\<lambda>i. snd (projr (chunkGenerateFacades E (take i cs' @ drop i st) i)))
                          [k..<n]) \<and>
     t = map EvGenerateFacades [k..<n]"
  using assms
proof (induction "n - k" arbitrary: k st fs0 t)
  case 0
  then have "n \<le> k" by simp
  then have none: "\<not> (k \<le> i \<and> i < n)" for i by arith
  from 0 show ?case by (simp add: ret_def none)
next
  case (Suc d)
  let ?body = "\<lambda>i (cs, facades).
          andThen (call (EvGenerateFacades i) (chunkGenerateFacades E cs i))
            (\<lambda>(c, fs). ret (cs[i := c], facades @ fs))"
  let ?gf = "chunkGenerateFacades E"
  from Suc.hyps have kn: "k < n" and d: "d = n - Suc k" by auto
  then have upt: "[k..<n] = k # [Suc k..<n]" by (simp add: upt_conv_Cons)
  from Suc.prems(1) obtain c fs where gf: "?gf st k = Inr (c, fs)"
    unfolding upt by (cases "?gf st k") (auto simp: call_def)
  with Suc.prems(1) obtain t' where
    rest: "forEach ?body [Suc k..<n] (st[k := c], fs0 @ fs) = (t', Inr (cs', fs'))"
    and t: "t = EvGenerateFacades k # t'"
    unfolding upt by (cases "forEach ?body [Suc k..<n] (st[k := c], fs0 @ fs)") auto
  have len1: "length (st[k := c]) = n" using Suc.prems(2) by simp
  from Suc.hyps(1)[OF d rest len1] have
    len: "length cs' = n"
    and keep: "\<forall>i<Suc k. cs' ! i = st[k := c] ! i"
    and step: "\<forall>i. Suc k \<le> i \<and> i < n \<longrightarrow>
        (\<exists>fs. ?gf (take i cs' @ drop i (st[k := c])) i = Inr (cs' ! i, fs))"
    and fs': "fs' = (fs0 @ fs) @
        concat (map (\<lambda>i. snd (projr (?gf (take i cs' @ drop i (st[k := c])) i))) [Suc k..<n])"
    and t': "t' = map EvGenerateFacades [Suc k..<n]"
    by auto
  have dropi: "drop i (st[k := c]) = drop i st" if "k < i" for i
    using that by simp
  have csk: "cs' ! k = c" using keep kn Suc.prems(2) by simp
  have low: "\<forall>i<k. cs' ! i = st ! i" using keep by simp
  have "take k cs' = take k st"
    using low len Suc.prems(2) kn by (intro nth_take_lemma) auto
  then have at_k: "take k cs' @ drop k st = st" by simp
  have A: "\<forall>i. k \<le> i \<and> i < n \<longrightarrow> (\<exists>fs. ?gf (take i cs' @ drop i st) i = Inr (cs' ! i, fs))"
  proof (intro allI impI)
    fix i assume i: "k \<le> i \<and> i < n"
    show "\<exists>fs. ?gf (take i cs' @ drop i st) i = Inr (cs' ! i, fs)"
    proof (cases "i = k")
      case True
      then show ?thesis using at_k gf csk by simp
    next
      case False
      with i have "Suc k \<le> i \<and> i < n" "k < i" by auto
      with step dropi show ?thesis by simp
    qed
  qed
  have "map (\<lambda>i. snd (projr (?gf (take i cs' @ drop i (st[k := c])) i))) [Suc k..<n] =
        map (\<lambda>i. snd (projr (?gf (take i cs' @ drop i st) i))) [Suc k..<n]"
    by (rule map_cong) (auto simp: dropi)
  note fs'' = fs'[unfolded this]
  have B: "fs' = fs0 @
      concat (map (\<lambda>i. snd (projr (?gf (take i cs' @ drop i st) i))) [k..<n])"
    unfolding upt using fs'' at_k gf by simp
  show ?case using len low A B t t' upt by simp
qed

lemma forEach_slots:
  assumes "forEach (\<lambda>i cs. andThen (call (ev i) (f cs i)) (\<lambda>c. ret (cs[i := c]))) [k..<n] st =
      (t, r)"
  shows "(\<exists>j. k \<le> j \<and> j \<le> max k n \<and> t = map ev [k..<j] \<and> (isl r \<longrightarrow> k < j)) \<and>
     (\<forall>cs'. r = Inr cs' \<longrightarrow> t = map ev [k..<n] \<and> length cs' = length st)"
  using assms
proof (induction "n - k" arbitrary: k st t)
  case 0
  then show ?case by (auto simp: ret_def)
next
  case (Suc d)
  let ?body = "\<lambda>i cs. andThen (call (ev i) (f cs i)) (\<lambda>c. ret (cs[i := c]))"
  from Suc.hyps have kn: "k < n" and d: "d = n - Suc k" by auto
  then have upt: "[k..<n] = k # [Suc k..<n]" by (simp add: upt_conv_Cons)
  show ?case
  proof (cases "f st k")
    case (Inl e)
    with Suc.prems have "t = [ev k]" "r = Inl e" unfolding upt by auto
    then show ?thesis using kn by (auto intro!: exI[of _ "Suc k"])
  next
    case (Inr c)
    obtain t' where rest: "forEach ?body [Suc k..<n] (st[k := c]) = (t', r)"
      and t: "t = ev k # t'"
      using Suc.prems Inr unfolding upt
      by (cases "forEach ?body [Suc k..<n] (st[k := c])") (auto simp: ret_def)
    from Suc.hyps(1)[OF d rest] obtain j where
      j: "Suc k \<le> j" "j \<le> max (Suc k) n" "t' = map ev [Suc k..<j]"
      and ok: "\<forall>cs'. r = Inr cs' \<longrightarrow> t' = map ev [Suc k..<n] \<and> length cs' = length (st[k := c])"
      by auto
    have tj: "t = map ev [k..<j]" using t j by (simp add: upt_conv_Cons)
    have "k \<le> j" "j \<le> max k n" "k < j" using j kn by auto
    with tj have part1: "\<exists>j. k \<le> j \<and> j \<le> max k n \<and> t = map ev [k..<j] \<and> (isl r \<longrightarrow> k < j)"
      by (intro exI[of _ j]) simp
    have part2: "\<forall>cs'. r = Inr cs' \<longrightarrow> t = map ev [k..<n] \<and> length cs' = length st"
      using ok t upt by auto
    from part1 part2 show ?thesis by blast
  qed
qed

lemma andThen_InrD:
  assumes "andThen m f = (t, Inr y)"
  shows "\<exists>t1 x t2. m = (t1, Inr x) \<and> f x = (t2, Inr y) \<and> t = t1 @ t2"
proof (cases m)
  case (Pair t1 r)
  show ?thesis
  proof (cases r)
    case (Inl e)
    with assms Pair show ?thesis by simp
  next
    case (Inr x)
    with assms Pair have "t = t1 @ fst (f x)" and "snd (f x) = Inr y" by simp_all
    moreover from this have "f x = (fst (f x), Inr y)" by (simp add: prod_eq_iff)
    ultimately show ?thesis using Pair Inr by blast
  qed
qed

lemma forEach_slots_Inr:
  assumes "forEach (\<lambda>i cs. andThen (call (ev i) (f cs i)) (\<lambda>c. ret (cs[i := c]))) [k..<n] st =
      (t, Inr cs')"
  shows "t = map ev [k..<n] \<and> length cs' = length st"
  using forEach_slots[OF assms] by blast

lemma linkChunks_length:
  assumes "linkChunks E chunks = (t, Inr linked)"
  shows "length linked = length chunks"
  using forEach_slots_Inr[OF assms[unfolded linkChunks_def]] by blast

text \<open>
  C8. When \<open>generateChunks\<close> returns, its list is the primary chunks (one per partition
  group, in partition order, as \<open>generateFacades\<close> left them) followed by all facade
  chunks, and the facades are the concatenation, in primary-chunk order, of what
  \<open>generateFacades\<close> returned for each primary chunk.
\<close>

theorem facades_follow_primary_chunks:
  assumes "generateChunks E opts G = (t, Inr cs)"
  shows "\<exists>am t1 groups t2 created t3 linked t4 primaries.
     manualChunkAliases E opts G = (t1, Inr am) \<and>
     chunkGroups E opts G am = (t2, Inr groups) \<and>
     createChunks E groups [] = (t3, Inr created) \<and>
     linkChunks E created = (t4, Inr linked) \<and>
     length primaries = length groups \<and> length linked = length groups \<and>
     (\<forall>i<length primaries.
        \<exists>fs. chunkGenerateFacades E (take i primaries @ drop i linked) i = Inr (primaries ! i, fs)) \<and>
     cs = primaries @
       concat (map (\<lambda>i. snd (projr (chunkGenerateFacades E (take i primaries @ drop i linked) i)))
                 [0..<length primaries])"
proof -
  from andThen_InrD[OF assms[unfolded generateChunks_def]] obtain t1 am r1 where
    1: "manualChunkAliases E opts G = (t1, Inr am)"
    and a: "andThen (chunkGroups E opts G am) (\<lambda>groups.
     andThen (createChunks E groups []) (\<lambda>chunks.
     andThen (linkChunks E chunks) (\<lambda>chunks.
     andThen (generateFacadesOfChunks E chunks) (\<lambda>(chunks, facades).
     ret (chunks @ facades))))) = (r1, Inr cs)"
    by blast
  from andThen_InrD[OF a] obtain t2 groups r2 where
    2: "chunkGroups E opts G am = (t2, Inr groups)"
    and b: "andThen (createChunks E groups []) (\<lambda>chunks.
     andThen (linkChunks E chunks) (\<lambda>chunks.
     andThen (generateFacadesOfChunks E chunks) (\<lambda>(chunks, facades).
     ret (chunks @ facades)))) = (r2, Inr cs)"
    by blast
  from andThen_InrD[OF b] obtain t3 created r3 where
    3: "createChunks E groups [] = (t3, Inr created)"
    and c: "andThen (linkChunks E created) (\<lambda>chunks.
     andThen (generateFacadesOfChunks E chunks) (\<lambda>(chunks, facades).
     ret (chunks @ facades))) = (r3, Inr cs)"
    by blast
  from andThen_InrD[OF c] obtain t4 linked r4 where
    4: "linkChunks E created = (t4, Inr linked)"
    and d: "andThen (generateFacadesOfChunks E linked) (\<lambda>(chunks, facades).
     ret (chunks @ facades)) = (r4, Inr cs)"
    by blast
  from andThen_InrD[OF d] obtain t5 pf where
    5: "generateFacadesOfChunks E linked = (t5, Inr pf)"
    and e: "(case pf of (chunks, facades) \<Rightarrow> ret (chunks @ facades)) = ([], Inr cs)"
    by (auto simp: ret_def split: prod.splits)
  obtain primaries facades where pf: "pf = (primaries, facades)" by (cases pf)
  from e pf have cs: "cs = primaries @ facades" by (simp add: ret_def)
  from 3 have "length created = length groups" by (auto simp: createChunks_eq)
  with linkChunks_length[OF 4] have len: "length linked = length groups" by simp
  from facades_loop[OF 5[unfolded generateFacadesOfChunks_def pf] refl]
  have lp: "length primaries = length linked"
    and each: "\<forall>i. 0 \<le> i \<and> i < length linked \<longrightarrow>
        (\<exists>fs. chunkGenerateFacades E (take i primaries @ drop i linked) i = Inr (primaries ! i, fs))"
    and fac: "facades = [] @ concat (map (\<lambda>i. snd (projr (chunkGenerateFacades E (take i primaries @ drop i linked) i)))
                          [0..<length linked])"
    by blast+
  from lp len have l1: "length primaries = length groups" by simp
  from each lp have l2: "\<forall>i<length primaries.
        \<exists>fs. chunkGenerateFacades E (take i primaries @ drop i linked) i = Inr (primaries ! i, fs)"
    by simp
  from cs fac lp have l3: "cs = primaries @
       concat (map (\<lambda>i. snd (projr (chunkGenerateFacades E (take i primaries @ drop i linked) i)))
                 [0..<length primaries])"
    by simp
  from 1 2 3 4 l1 len l2 l3 show ?thesis by blast
qed

theorem facades_follow_primary_chunks_witness:
  "generateChunks exEnvFacades exOptions exGraph =
     ([EvGetChunkAssignments, EvNewChunk 0, EvNewChunk 1, EvLink 0, EvLink 1,
       EvGenerateFacades 0, EvGenerateFacades 1],
      Inr [newChunk exEnv [exModuleB] None, newChunk exEnv [exModuleA] None,
           (newChunk exEnv [] None)\<lparr>facadeModule := Some exModuleB\<rparr>,
           (newChunk exEnv [] None)\<lparr>facadeModule := Some exModuleA\<rparr>]) \<and>
   (\<exists>am t1 groups t2 created t3 linked t4 primaries.
     manualChunkAliases exEnvFacades exOptions exGraph = (t1, Inr am) \<and>
     chunkGroups exEnvFacades exOptions exGraph am = (t2, Inr groups) \<and>
     createChunks exEnvFacades groups [] = (t3, Inr created) \<and>
     linkChunks exEnvFacades created = (t4, Inr linked) \<and>
     length primaries = length groups \<and> length linked = length groups \<and>
     (\<forall>i<length primaries.
        \<exists>fs. chunkGenerateFacades exEnvFacades (take i primaries @ drop i linked) i =
          Inr (primaries ! i, fs)) \<and>
     [newChunk exEnv [exModuleB] None, newChunk exEnv [exModuleA] None,
      (newChunk exEnv [] None)\<lparr>facadeModule := Some exModuleB\<rparr>,
      (newChunk exEnv [] None)\<lparr>facadeModule := Some exModuleA\<rparr>] =
       primaries @
       concat (map (\<lambda>i. snd (projr (chunkGenerateFacades exEnvFacades
                                        (take i primaries @ drop i linked) i)))
                 [0..<length primaries]))"
proof -
  have g: "generateChunks exEnvFacades exOptions exGraph =
     ([EvGetChunkAssignments, EvNewChunk 0, EvNewChunk 1, EvLink 0, EvLink 1,
       EvGenerateFacades 0, EvGenerateFacades 1],
      Inr [newChunk exEnv [exModuleB] None, newChunk exEnv [exModuleA] None,
           (newChunk exEnv [] None)\<lparr>facadeModule := Some exModuleB\<rparr>,
           (newChunk exEnv [] None)\<lparr>facadeModule := Some exModuleA\<rparr>])"
    by code_simp
  from facades_follow_primary_chunks [OF g] g show ?thesis by blast
qed

lemma assignedChunks_append: "assignedChunks (s @ t) = assignedChunks s @ assignedChunks t"
  by (induction s rule: assignedChunks.induct) auto

lemma chooseChunkId_trace:
  "fst (chooseChunkId E opts base ad i c b) = [] \<or>
   fst (chooseChunkId E opts base ad i c b) = [EvGenerateId i b] \<or>
   fst (chooseChunkId E opts base ad i c b) = [EvGenerateIdPreserveModules i b]"
  by (simp add: chooseChunkId_def call_def split: option.splits)

lemma assignChunkId_eq:
  "assignChunkId E opts base ad i (cs, b) =
     (case chooseChunkId E opts base ad i (cs ! i) b of
        (tg, Inl e) \<Rightarrow> (tg, Inl e)
      | (tg, Inr n) \<Rightarrow>
          (tg @ [EvAssignId i n],
           Inr (cs[i := (cs ! i)\<lparr>chunkId := Some n\<rparr>], AList.update n FILE_PLACEHOLDER b)))"
  by (simp add: assignChunkId_def call_def split: prod.splits sum.splits)

lemma assignedChunks_choose [simp]:
  "assignedChunks (fst (chooseChunkId E opts base ad i c b)) = []"
  using chooseChunkId_trace[of E opts base ad i c b] by auto

lemma assign_loop_order:
  "prefix (assignedChunks (fst (forEach (assignChunkId E opts base ad) hs st))) hs \<and>
   (\<not> isl (snd (forEach (assignChunkId E opts base ad) hs st)) \<longrightarrow>
      assignedChunks (fst (forEach (assignChunkId E opts base ad) hs st)) = hs)"
proof (induction hs arbitrary: st)
  case Nil
  then show ?case by simp
next
  case (Cons h hs)
  obtain cs b where st: "st = (cs, b)" by (cases st)
  obtain tg rg where ch: "chooseChunkId E opts base ad h (cs ! h) b = (tg, rg)"
    by (cases "chooseChunkId E opts base ad h (cs ! h) b")
  have tg: "assignedChunks tg = []"
    using assignedChunks_choose[of E opts base ad h "cs ! h" b] ch by simp
  show ?case
  proof (cases rg)
    case (Inl e)
    then show ?thesis using st ch tg by (simp add: assignChunkId_eq)
  next
    case (Inr n)
    then show ?thesis using st ch tg Cons.IH
      by (simp add: assignChunkId_eq assignedChunks_append)
  qed
qed



section \<open>Naming: reservations\<close>

lemma reservationsObserved_choose:
  "\<forall>n \<in> set reserved. map_of b n = Some FILE_PLACEHOLDER \<Longrightarrow>
     reservationsObserved reserved (fst (chooseChunkId E opts base ad i c b) @ t) =
     reservationsObserved reserved t"
  using chooseChunkId_trace[of E opts base ad i c b] by auto

lemma assign_loop_reservations:
  "\<forall>n \<in> set reserved. map_of b n = Some FILE_PLACEHOLDER \<Longrightarrow>
     reservationsObserved reserved (fst (forEach (assignChunkId E opts base ad) hs (cs, b)))"
proof (induction hs arbitrary: cs b reserved)
  case Nil
  then show ?case by simp
next
  case (Cons h hs)
  obtain tg rg where ch: "chooseChunkId E opts base ad h (cs ! h) b = (tg, rg)"
    by (cases "chooseChunkId E opts base ad h (cs ! h) b")
  have tg: "reservationsObserved reserved (tg @ t) = reservationsObserved reserved t" for t
    using reservationsObserved_choose[OF Cons.prems, of E opts base ad h "cs ! h" t] ch by simp
  show ?case
  proof (cases rg)
    case (Inl e)
    then show ?thesis using ch tg[of "[]"] by (simp add: assignChunkId_eq)
  next
    case (Inr n)
    have inv: "\<forall>m \<in> set (n # reserved). map_of (AList.update n FILE_PLACEHOLDER b) m = Some FILE_PLACEHOLDER"
      using Cons.prems by (simp add: update_conv')
    from Cons.IH[OF inv] Inr ch tg show ?thesis
      by (simp add: assignChunkId_eq)
  qed
qed

lemma assign_loop_final:
  assumes "forEach (assignChunkId E opts base ad) hs (cs, b) = (t, Inr (cs', b'))"
    and "\<forall>h \<in> set hs. h < length cs"
  shows "length cs' = length cs \<and>
     (\<forall>n. map_of b n = Some FILE_PLACEHOLDER \<longrightarrow> map_of b' n = Some FILE_PLACEHOLDER) \<and>
     (\<forall>i<length cs. i \<notin> set hs \<longrightarrow> cs' ! i = cs ! i) \<and>
     (\<forall>h \<in> set hs. \<exists>n. chunkId (cs' ! h) = Some n \<and> map_of b' n = Some FILE_PLACEHOLDER)"
  using assms
proof (induction hs arbitrary: cs b t)
  case Nil
  then show ?case by (simp add: ret_def)
next
  case (Cons h hs)
  obtain tg rg where ch: "chooseChunkId E opts base ad h (cs ! h) b = (tg, rg)"
    by (cases "chooseChunkId E opts base ad h (cs ! h) b")
  from Cons.prems(1) ch obtain n where rg: "rg = Inr n"
    by (cases rg) (auto simp: assignChunkId_eq)
  let ?cs1 = "cs[h := (cs ! h)\<lparr>chunkId := Some n\<rparr>]"
  let ?b1 = "AList.update n FILE_PLACEHOLDER b"
  from Cons.prems(1) ch rg obtain t' where
    rest: "forEach (assignChunkId E opts base ad) hs (?cs1, ?b1) = (t', Inr (cs', b'))"
    by (cases "forEach (assignChunkId E opts base ad) hs (?cs1, ?b1)")
      (auto simp: assignChunkId_eq)
  have hs1: "\<forall>h \<in> set hs. h < length ?cs1" using Cons.prems(2) by simp
  from Cons.IH[OF rest hs1] have
    len: "length cs' = length cs"
    and keep: "\<forall>m. map_of ?b1 m = Some FILE_PLACEHOLDER \<longrightarrow> map_of b' m = Some FILE_PLACEHOLDER"
    and same: "\<forall>i<length cs. i \<notin> set hs \<longrightarrow> cs' ! i = ?cs1 ! i"
    and got: "\<forall>h \<in> set hs. \<exists>n. chunkId (cs' ! h) = Some n \<and> map_of b' n = Some FILE_PLACEHOLDER"
    by simp_all
  have hlen: "h < length cs" using Cons.prems(2) by simp
  have keep0: "\<forall>m. map_of b m = Some FILE_PLACEHOLDER \<longrightarrow> map_of b' m = Some FILE_PLACEHOLDER"
    using keep by (simp add: update_conv')
  have n: "map_of b' n = Some FILE_PLACEHOLDER" using keep by (simp add: update_conv')
  have same0: "\<forall>i<length cs. i \<notin> set (h # hs) \<longrightarrow> cs' ! i = cs ! i"
    using same by auto
  have "\<exists>n. chunkId (cs' ! h) = Some n \<and> map_of b' n = Some FILE_PLACEHOLDER"
  proof (cases "h \<in> set hs")
    case True
    with got show ?thesis by blast
  next
    case False
    with same hlen have "cs' ! h = ?cs1 ! h" by simp
    with hlen n show ?thesis by auto
  qed
  with got have done0: "\<forall>h' \<in> set (h # hs). \<exists>n. chunkId (cs' ! h') = Some n \<and> map_of b' n = Some FILE_PLACEHOLDER"
    by simp
  from len keep0 same0 done0 show ?case by blast
qed

lemma set_chunksForNaming: "set (chunksForNaming chunks) = {0..<length chunks}"
  by (auto simp: chunksForNaming_def)

text \<open>
  C7. In \<open>assignChunkIds\<close> every call of \<open>generateId\<close> or
  \<open>generateIdPreserveModules\<close> receives a bundle that holds the placeholder at every
  name assigned earlier in the same call; when the call returns, every chunk has a name
  and the bundle holds the placeholder at it; and one step of the loop, when it succeeds,
  ends by setting the chunk's id and storing the placeholder under that id.
\<close>

theorem identities_reserved_by_placeholders:
  "reservationsObserved [] (fst (assignChunkIds E opts chunks base ad b)) \<and>
   (snd (assignChunkIds E opts chunks base ad b) = Inr (cs', b') \<longrightarrow>
      length cs' = length chunks \<and>
      (\<forall>i<length chunks. \<exists>n. chunkId (cs' ! i) = Some n \<and> map_of b' n = Some FILE_PLACEHOLDER)) \<and>
   (assignChunkId E opts base ad i (cs, b0) = (t, Inr (cs1, b1)) \<longrightarrow>
      (\<exists>n tg. t = tg @ [EvAssignId i n] \<and> cs1 = cs[i := (cs ! i)\<lparr>chunkId := Some n\<rparr>] \<and>
         b1 = AList.update n FILE_PLACEHOLDER b0 \<and> map_of b1 n = Some FILE_PLACEHOLDER))"
proof -
  have A: "reservationsObserved [] (fst (assignChunkIds E opts chunks base ad b))"
    unfolding assignChunkIds_def by (rule assign_loop_reservations) simp
  have B: "length cs' = length chunks \<and>
      (\<forall>i<length chunks. \<exists>n. chunkId (cs' ! i) = Some n \<and> map_of b' n = Some FILE_PLACEHOLDER)"
    if r: "snd (assignChunkIds E opts chunks base ad b) = Inr (cs', b')"
  proof -
    from r have run: "forEach (assignChunkId E opts base ad) (chunksForNaming chunks) (chunks, b) =
        (fst (assignChunkIds E opts chunks base ad b), Inr (cs', b'))"
      by (simp add: assignChunkIds_def prod_eq_iff)
    have "\<forall>h \<in> set (chunksForNaming chunks). h < length chunks"
      by (simp add: set_chunksForNaming)
    from assign_loop_final[OF run this] show ?thesis
      by (simp add: set_chunksForNaming)
  qed
  have C: "\<exists>n tg. t = tg @ [EvAssignId i n] \<and> cs1 = cs[i := (cs ! i)\<lparr>chunkId := Some n\<rparr>] \<and>
         b1 = AList.update n FILE_PLACEHOLDER b0 \<and> map_of b1 n = Some FILE_PLACEHOLDER"
    if "assignChunkId E opts base ad i (cs, b0) = (t, Inr (cs1, b1))"
    using that by (auto simp: assignChunkId_eq update_conv' split: prod.splits sum.splits)
  from A B C show ?thesis by blast
qed

theorem identities_reserved_by_placeholders_witness:
  "reservationsObserved [] (fst (assignChunkIds exEnv exOptions exChunks ''/'' exAddons [])) \<and>
   fst (assignChunkIds exEnv exOptions exChunks ''/'' exAddons []) =
     [EvGenerateId 1 [], EvAssignId 1 ''chunk.js'',
      EvGenerateId 0 [(''chunk.js'', FILE_PLACEHOLDER)], EvAssignId 0 ''chunk2.js'',
      EvGenerateId 2 [(''chunk.js'', FILE_PLACEHOLDER), (''chunk2.js'', FILE_PLACEHOLDER)],
      EvAssignId 2 ''chunk3.js''] \<and>
   length [(exChunks ! 0)\<lparr>chunkId := Some ''chunk2.js''\<rparr>,
           (exChunks ! 1)\<lparr>chunkId := Some ''chunk.js''\<rparr>,
           (exChunks ! 2)\<lparr>chunkId := Some ''chunk3.js''\<rparr>] = length exChunks \<and>
   (\<exists>n tg. [EvGenerateId 1 [], EvAssignId 1 ''chunk.js''] = tg @ [EvAssignId 1 n] \<and>
      exChunks[1 := (exChunks ! 1)\<lparr>chunkId := Some ''chunk.js''\<rparr>] =
        exChunks[1 := (exChunks ! 1)\<lparr>chunkId := Some n\<rparr>] \<and>
      [(''chunk.js'', FILE_PLACEHOLDER)] = AList.update n FILE_PLACEHOLDER [] \<and>
      map_of [(''chunk.js'', FILE_PLACEHOLDER)] n = Some FILE_PLACEHOLDER)"
proof -
  let ?cs' = "[(exChunks ! 0)\<lparr>chunkId := Some ''chunk2.js''\<rparr>,
           (exChunks ! 1)\<lparr>chunkId := Some ''chunk.js''\<rparr>,
           (exChunks ! 2)\<lparr>chunkId := Some ''chunk3.js''\<rparr>]"
  let ?b' = "[(''chunk.js'', FILE_PLACEHOLDER), (''chunk2.js'', FILE_PLACEHOLDER),
           (''chunk3.js'', FILE_PLACEHOLDER)]"
  have run: "snd (assignChunkIds exEnv exOptions exChunks ''/'' exAddons []) = Inr (?cs', ?b')"
    by code_simp
  have log: "fst (assignChunkIds exEnv exOptions exChunks ''/'' exAddons []) =
     [EvGenerateId 1 [], EvAssignId 1 ''chunk.js'',
      EvGenerateId 0 [(''chunk.js'', FILE_PLACEHOLDER)], EvAssignId 0 ''chunk2.js'',
      EvGenerateId 2 [(''chunk.js'', FILE_PLACEHOLDER), (''chunk2.js'', FILE_PLACEHOLDER)],
      EvAssignId 2 ''chunk3.js'']"
    by code_simp
  have step: "assignChunkId exEnv exOptions ''/'' exAddons 1 (exChunks, []) =
      ([EvGenerateId 1 [], EvAssignId 1 ''chunk.js''],
       Inr (exChunks[1 := (exChunks ! 1)\<lparr>chunkId := Some ''chunk.js''\<rparr>],
            [(''chunk.js'', FILE_PLACEHOLDER)]))"
    by code_simp
  from identities_reserved_by_placeholders [of exEnv exOptions exChunks "''/''" exAddons "[]"
      "?cs'" "?b'" 1 exChunks "[]" "[EvGenerateId 1 [], EvAssignId 1 ''chunk.js'']"
      "exChunks[1 := (exChunks ! 1)\<lparr>chunkId := Some ''chunk.js''\<rparr>]"
      "[(''chunk.js'', FILE_PLACEHOLDER)]"] run step log
  show ?thesis by blast
qed


section \<open>The order of the calls\<close>

lemma inPhases_Nil [simp]: "inPhases lo hi []"
  by (simp add: inPhases_def)

lemma inPhases_single [simp]: "inPhases lo hi [ev] \<longleftrightarrow> lo \<le> phase ev \<and> phase ev \<le> hi"
  by (simp add: inPhases_def)

lemma inPhases_Cons_same [simp]:
  "inPhases p p (ev # t) \<longleftrightarrow> phase ev = p \<and> inPhases p p t"
  by (auto simp: inPhases_def)

lemma inPhases_const: "(\<And>ev. ev \<in> set t \<Longrightarrow> phase ev = p) \<Longrightarrow> inPhases p p t"
  by (induction t) auto

lemma inPhases_append:
  "inPhases lo mid s \<Longrightarrow> inPhases mid hi t \<Longrightarrow> lo \<le> mid \<Longrightarrow> mid \<le> hi \<Longrightarrow> inPhases lo hi (s @ t)"
  by (fastforce simp: inPhases_def sorted_append)

lemma inPhases_mono:
  "inPhases lo hi t \<Longrightarrow> lo' \<le> lo \<Longrightarrow> hi \<le> hi' \<Longrightarrow> inPhases lo' hi' t"
  by (fastforce simp: inPhases_def)

lemma inPhases_andThen:
  assumes "inPhases lo mid (fst m)" and "\<And>x. inPhases mid hi (fst (f x))"
    and "lo \<le> mid" and "mid \<le> hi"
  shows "inPhases lo hi (fst (andThen m f))"
proof (cases m)
  case (Pair t r)
  show ?thesis
  proof (cases r)
    case (Inl e)
    with Pair assms show ?thesis by (auto intro: inPhases_mono)
  next
    case (Inr x)
    with Pair assms(1) assms(2)[of x] assms(3,4) show ?thesis
      by (auto intro: inPhases_append)
  qed
qed

lemma inPhases_same_andThen:
  "inPhases p p (fst m) \<Longrightarrow> (\<And>x. inPhases p p (fst (f x))) \<Longrightarrow> inPhases p p (fst (andThen m f))"
  by (rule inPhases_andThen) auto

lemma inPhases_call [simp]: "inPhases lo hi (fst (call ev r)) \<longleftrightarrow> lo \<le> phase ev \<and> phase ev \<le> hi"
  by (simp add: call_def)

lemma inPhases_throw [simp]: "inPhases lo hi (fst (throw e))"
  by (simp add: throw_def)

lemma inPhases_forEach:
  "(\<And>x s. inPhases p p (fst (f x s))) \<Longrightarrow> inPhases p p (fst (forEach f xs s))"
  by (induction xs arbitrary: s) (auto intro: inPhases_same_andThen)

lemma inPhases_promiseAll:
  "(\<And>m. m \<in> set ms \<Longrightarrow> inPhases p p (fst m)) \<Longrightarrow> inPhases p p (fst (promiseAll ms))"
proof (induction ms)
  case Nil
  then show ?case by simp
next
  case (Cons m ms)
  obtain t r where m: "m = (t, r)" by (cases m)
  obtain t' rs where p: "promiseAll ms = (t', rs)" by (cases "promiseAll ms")
  have "inPhases p p (fst m)" using Cons.prems by simp
  moreover have "inPhases p p (fst (promiseAll ms))" using Cons.IH Cons.prems by simp
  ultimately have "inPhases p p t" "inPhases p p t'" using m p by simp_all
  then show ?case using m p by (auto intro: inPhases_append)
qed

lemma phases_manualChunkAliases: "inPhases 2 2 (fst (manualChunkAliases E opts G))"
proof (cases "manualChunks opts")
  case (ManualChunksObject tbl)
  have "inPhases 2 2 (fst (addManualChunks E tbl))"
    unfolding addManualChunks_def
    by (intro inPhases_same_andThen inPhases_promiseAll) (auto intro!: inPhases_same_andThen)
  with ManualChunksObject show ?thesis by (simp add: manualChunkAliases_def)
next
  case (ManualChunksFunction getManualChunk)
  have c: "inPhases 2 2 (fst (collectManualChunkAliases getManualChunk nodes))" for nodes
    by (induction nodes rule: collectManualChunkAliases.induct)
      (auto intro!: inPhases_same_andThen)
  have "inPhases 2 2 (fst (assignManualChunks G getManualChunk))"
    unfolding assignManualChunks_def by (intro inPhases_same_andThen c) simp
  with ManualChunksFunction show ?thesis by (simp add: manualChunkAliases_def)
qed

lemma phases_generateChunks: "inPhases 2 2 (fst (generateChunks E opts G))"
  unfolding generateChunks_def
proof (intro inPhases_same_andThen phases_manualChunkAliases)
  fix am show "inPhases 2 2 (fst (chunkGroups E opts G am))"
    by (simp add: chunkGroups_def)
next
  fix groups :: "(string option \<times> module list) list"
  show "inPhases 2 2 (fst (createChunks E groups []))"
    by (auto simp: createChunks_eq intro!: inPhases_const)
next
  fix chunks show "inPhases 2 2 (fst (linkChunks E chunks))"
    unfolding linkChunks_def by (intro inPhases_forEach inPhases_same_andThen) simp_all
next
  fix chunks show "inPhases 2 2 (fst (generateFacadesOfChunks E chunks))"
    unfolding generateFacadesOfChunks_def
    by (intro inPhases_forEach) (auto intro!: inPhases_same_andThen split: prod.splits)
next
  fix x :: "chunk list \<times> chunk list"
  show "inPhases 2 2 (fst (case x of (chunks, facades) \<Rightarrow> ret (chunks @ facades)))"
    by (simp split: prod.splits)
qed

lemma phases_validate: "inPhases 2 2 (fst (validateOptionsForMultiChunkOutput E opts))"
  by (simp add: validateOptionsForMultiChunkOutput_def)

lemma phases_assignChunkIds: "inPhases 6 6 (fst (assignChunkIds E opts chunks base ad b))"
  unfolding assignChunkIds_def
proof (rule inPhases_forEach)
  fix i and st :: "chunk list \<times> output_bundle"
  obtain cs b where st: "st = (cs, b)" by (cases st)
  have "inPhases 6 6 (fst (chooseChunkId E opts base ad i (cs ! i) b))"
    using chooseChunkId_trace[of E opts base ad i "cs ! i" b] by auto
  then show "inPhases 6 6 (fst (assignChunkId E opts base ad i st))"
    unfolding st assignChunkId_def by (auto intro!: inPhases_same_andThen)
qed

lemma phases_finaliseAssets: "inPhases 9 9 (fst (finaliseAssets E opts b))"
proof -
  have f: "inPhases 9 9 (fst (finaliseFile E opts f))" for f
    unfolding finaliseFile_def
    by (intro inPhases_same_andThen)
      (auto intro!: inPhases_same_andThen split: option.splits sum.splits)
  have fs: "inPhases 9 9 (fst (finaliseFiles E opts b))" for b
  proof (induction b)
    case Nil
    then show ?case by simp
  next
    case (Cons p b)
    obtain name f' where p: "p = (name, f')" by (cases p)
    show ?case unfolding p finaliseFiles.simps
      by (intro inPhases_same_andThen f Cons.IH) simp
  qed
  show ?thesis unfolding finaliseAssets_def
    by (intro inPhases_same_andThen fs) simp_all
qed

lemma inPhases_andThen':
  assumes "inPhases lo mid (fst m)" and "\<And>x. inPhases mid' hi (fst (f x))"
    and "lo \<le> mid" and "mid \<le> mid'" and "mid' \<le> hi"
  shows "inPhases lo hi (fst (andThen m f))"
proof (rule inPhases_andThen[where mid = mid])
  show "inPhases lo mid (fst m)" by fact
  show "inPhases mid hi (fst (f x))" for x
    using assms(2)[of x] assms(4) by (rule inPhases_mono) simp
  show "lo \<le> mid" by fact
  show "mid \<le> hi" using assms(4,5) by simp
qed

lemma prerender_trace:
  assumes "prerenderChunks E cs base = (t, r)"
  shows "\<exists>j k. j \<le> length cs \<and> k \<le> length cs \<and>
     t = map EvGenerateExports [0..<j] @ map EvPreRender [0..<k] \<and> (0 < k \<longrightarrow> j = length cs)"
proof -
  let ?b1 = "\<lambda>i cs. andThen (call (EvGenerateExports i) (chunkGenerateExports E cs i))
                    (\<lambda>c. ret (cs[i := c]))"
  let ?b2 = "\<lambda>i cs. andThen (call (EvPreRender i) (chunkPreRender E base cs i))
                    (\<lambda>c. ret (cs[i := c]))"
  obtain t1 r1 where 1: "forEach ?b1 [0..<length cs] cs = (t1, r1)"
    by (cases "forEach ?b1 [0..<length cs] cs")
  from forEach_slots[OF 1] obtain j where j: "j \<le> length cs" "t1 = map EvGenerateExports [0..<j]"
    and ok1: "\<forall>cs'. r1 = Inr cs' \<longrightarrow> t1 = map EvGenerateExports [0..<length cs] \<and> length cs' = length cs"
    by auto
  show ?thesis
  proof (cases r1)
    case (Inl e)
    with assms 1 have "t = t1" by (simp add: prerenderChunks_def)
    with j show ?thesis by (intro exI[of _ j] exI[of _ 0]) simp
  next
    case (Inr cs1)
    obtain t2 r2 where 2: "forEach ?b2 [0..<length cs] cs1 = (t2, r2)"
      by (cases "forEach ?b2 [0..<length cs] cs1")
    from forEach_slots[OF 2] obtain k where k: "k \<le> length cs" "t2 = map EvPreRender [0..<k]"
      by auto
    from assms 1 2 Inr have "t = t1 @ t2" by (simp add: prerenderChunks_def)
    with ok1 Inr k show ?thesis
      by (intro exI[of _ "length cs"] exI[of _ k]) simp
  qed
qed

lemma prerender_length:
  assumes "prerenderChunks E cs base = (t, Inr cs')"
  shows "length cs' = length cs"
proof -
  from andThen_InrD[OF assms[unfolded prerenderChunks_def]] obtain t1 cs1 t2 where
    1: "forEach (\<lambda>i cs. andThen (call (EvGenerateExports i) (chunkGenerateExports E cs i))
                    (\<lambda>c. ret (cs[i := c]))) [0..<length cs] cs = (t1, Inr cs1)"
    and 2: "forEach (\<lambda>i cs. andThen (call (EvPreRender i) (chunkPreRender E base cs i))
                    (\<lambda>c. ret (cs[i := c]))) [0..<length cs] cs1 = (t2, Inr cs')"
    by blast
  from forEach_slots_Inr[OF 1] forEach_slots_Inr[OF 2] show ?thesis by simp
qed

lemma phases_prerender: "inPhases 4 5 (fst (prerenderChunks E cs base))"
  unfolding prerenderChunks_def
  by (rule inPhases_andThen'[where mid = 4 and mid' = 5])
    (auto intro!: inPhases_forEach inPhases_same_andThen)

lemma promiseAll_trace: "fst (promiseAll ms) = concat (map fst ms)"
  by (induction ms) (auto split: prod.splits)

lemma addChunkInfos_has_key:
  "c \<in> set cs \<Longrightarrow> map_of (addChunkInfos E cs b) (idKey c) \<noteq> None"
proof -
  have "dom (map_of (fold (\<lambda>c b'. AList.update (idKey c) (getChunkInfoWithFileNames E c) b') cs b)) =
      dom (map_of b) \<union> idKey ` set cs" for b
    by (induction cs arbitrary: b) (auto simp: update_conv')
  then show "c \<in> set cs \<Longrightarrow> map_of (addChunkInfos E cs b) (idKey c) \<noteq> None"
    unfolding addChunkInfos_def by blast
qed

lemma renderTask_trace:
  "i < length cs \<Longrightarrow> fst (renderTask E ad cs (addChunkInfos E cs b) i) = [EvRender i]"
proof -
  assume "i < length cs"
  then have "map_of (addChunkInfos E cs b) (idKey (cs ! i)) \<noteq> None"
    by (intro addChunkInfos_has_key) simp
  then obtain oc where "map_of (addChunkInfos E cs b) (idKey (cs ! i)) = Some oc" by blast
  then show ?thesis
    by (cases "chunkRender E ad (cs ! i) oc") (auto simp: renderTask_def call_def split: prod.splits)
qed

lemma concat_map_single: "(\<And>x. x \<in> set xs \<Longrightarrow> g x = [h x]) \<Longrightarrow> concat (map g xs) = map h xs"
  by (induction xs) auto

lemma render_trace:
  "fst (promiseAll (map (renderTask E ad cs (addChunkInfos E cs b)) [0..<length cs])) =
     map EvRender [0..<length cs]"
  unfolding promiseAll_trace map_map
  by (rule concat_map_single) (simp add: renderTask_trace)

lemma addFinalized_trace:
  "fst (addFinalizedChunksToBundle E opts cs base ad b) =
     (case assignChunkIds E opts cs base ad b of
        (ta, Inl e) \<Rightarrow> ta
      | (ta, Inr (cs', b1)) \<Rightarrow> ta @ map EvRender [0..<length cs'])"
proof (cases "assignChunkIds E opts cs base ad b")
  case (Pair ta ra)
  show ?thesis
  proof (cases ra)
    case (Inl e)
    with Pair show ?thesis by (simp add: addFinalizedChunksToBundle_def)
  next
    case (Inr st)
    obtain cs' b1 where st: "st = (cs', b1)" by (cases st)
    show ?thesis
      using Pair Inr st render_trace[of E ad cs' b1]
      by (cases "promiseAll (map (renderTask E ad cs' (addChunkInfos E cs' b1)) [0..<length cs'])";
          cases "snd (promiseAll (map (renderTask E ad cs' (addChunkInfos E cs' b1)) [0..<length cs']))")
        (simp_all add: addFinalizedChunksToBundle_def)
  qed
qed

lemma phases_addFinalized: "inPhases 6 7 (fst (addFinalizedChunksToBundle E opts cs base ad b))"
proof (cases "assignChunkIds E opts cs base ad b")
  case (Pair ta ra)
  have ta: "inPhases 6 6 ta" using phases_assignChunkIds[of E opts cs base ad b] Pair by simp
  show ?thesis
  proof (cases ra)
    case (Inl e)
    with Pair ta show ?thesis by (auto simp: addFinalized_trace intro: inPhases_mono)
  next
    case (Inr st)
    obtain cs' b1 where st: "st = (cs', b1)" by (cases st)
    have "inPhases 7 7 (map EvRender [0..<length cs'])" by (rule inPhases_const) auto
    with ta have "inPhases 6 7 (ta @ map EvRender [0..<length cs'])"
      by (intro inPhases_append[where mid = 6]) (auto intro: inPhases_mono)
    with Pair Inr st show ?thesis by (simp add: addFinalized_trace)
  qed
qed

lemma phases_tryBlock: "inPhases 1 7 (fst (generateTryBlock E opts G))"
  unfolding generateTryBlock_def
proof (rule inPhases_andThen'[where mid = 1 and mid' = 2])
  show "inPhases 1 1 (fst (call EvHookRenderStart (hookRenderStart E [])))" by simp
  fix b
  show "inPhases 2 7 (fst (andThen (generateChunks E opts G) (\<lambda>chunks.
     andThen (if length chunks > 1 then validateOptionsForMultiChunkOutput E opts else ret ())
       (\<lambda>u.
     andThen (call EvCreateAddons (createAddons E b)) (\<lambda>(ad, b').
     andThen (prerenderChunks E chunks (commondir E (getAbsoluteEntryModulePaths E chunks)))
       (\<lambda>chunks'.
     addFinalizedChunksToBundle E opts chunks'
       (commondir E (getAbsoluteEntryModulePaths E chunks)) ad b'))))))"
  proof (rule inPhases_andThen'[where mid = 2 and mid' = 2])
    show "inPhases 2 2 (fst (generateChunks E opts G))" by (rule phases_generateChunks)
    fix chunks
    show "inPhases 2 7 (fst (
     andThen (if length chunks > 1 then validateOptionsForMultiChunkOutput E opts else ret ())
       (\<lambda>u.
     andThen (call EvCreateAddons (createAddons E b)) (\<lambda>(ad, b').
     andThen (prerenderChunks E chunks (commondir E (getAbsoluteEntryModulePaths E chunks)))
       (\<lambda>chunks'.
     addFinalizedChunksToBundle E opts chunks'
       (commondir E (getAbsoluteEntryModulePaths E chunks)) ad b')))))"
    proof (rule inPhases_andThen'[where mid = 2 and mid' = 3])
      show "inPhases 2 2 (fst (if length chunks > 1
          then validateOptionsForMultiChunkOutput E opts else ret ()))"
        by (simp add: phases_validate)
      fix u :: unit
      show "inPhases 3 7 (fst (
        andThen (call EvCreateAddons (createAddons E b)) (\<lambda>(ad, b').
        andThen (prerenderChunks E chunks (commondir E (getAbsoluteEntryModulePaths E chunks)))
         (\<lambda>chunks'.
        addFinalizedChunksToBundle E opts chunks'
         (commondir E (getAbsoluteEntryModulePaths E chunks)) ad b'))))"
      proof (rule inPhases_andThen'[where mid = 3 and mid' = 4])
        show "inPhases 3 3 (fst (call EvCreateAddons (createAddons E b)))" by simp
        fix x :: "addons \<times> output_bundle"
        obtain ad b' where x: "x = (ad, b')" by (cases x)
        have "inPhases 4 7 (fst (
          andThen (prerenderChunks E chunks (commondir E (getAbsoluteEntryModulePaths E chunks)))
           (\<lambda>chunks'.
          addFinalizedChunksToBundle E opts chunks'
           (commondir E (getAbsoluteEntryModulePaths E chunks)) ad b')))"
          by (rule inPhases_andThen'[where mid = 5 and mid' = 6])
            (simp_all add: phases_prerender phases_addFinalized)
        then show "inPhases 4 7 (fst (case x of (ad, b') \<Rightarrow>
          andThen (prerenderChunks E chunks (commondir E (getAbsoluteEntryModulePaths E chunks)))
           (\<lambda>chunks'.
          addFinalizedChunksToBundle E opts chunks'
           (commondir E (getAbsoluteEntryModulePaths E chunks)) ad b')))"
          by (simp add: x)
      qed simp_all
    qed simp_all
  qed simp_all
qed simp_all

lemma generate_trace:
  "\<exists>rest. fst (generate E opts G w) = fst (generateTryBlock E opts G) @ rest \<and>
     inPhases 8 9 rest \<and>
     (isl (snd (generateTryBlock E opts G)) \<longrightarrow>
        rest = [EvHookRenderError (projl (snd (generateTryBlock E opts G)))]) \<and>
     (\<not> isl (snd (generateTryBlock E opts G)) \<longrightarrow> (\<forall>e. EvHookRenderError e \<notin> set rest))"
proof (cases "generateTryBlock E opts G")
  case (Pair t r)
  show ?thesis
  proof (cases r)
    case (Inl err)
    with Pair show ?thesis by (simp add: generate_def)
  next
    case (Inr b)
    let ?m = "andThen (call (EvHookGenerateBundle w) (hookGenerateBundle E w b)) (finaliseAssets E opts)"
    have ph: "inPhases 8 9 (fst ?m)"
      by (rule inPhases_andThen'[where mid = 8 and mid' = 9]) (simp_all add: phases_finaliseAssets)
    have "\<forall>e. EvHookRenderError e \<notin> set (fst ?m)"
    proof (cases "hookGenerateBundle E w b")
      case (Inl e)
      then show ?thesis by simp
    next
      case (Inr b')
      have "inPhases 9 9 (fst (finaliseAssets E opts b'))" by (rule phases_finaliseAssets)
      then have "\<forall>e. EvHookRenderError e \<notin> set (fst (finaliseAssets E opts b'))"
        by (auto simp: inPhases_def)
      with Inr show ?thesis by simp
    qed
    with ph Pair Inr show ?thesis by (simp add: generate_def)
  qed
qed

lemma sorted_generate: "sorted (map phase (fst (generate E opts G w)))"
proof -
  from generate_trace[of E opts G w] obtain rest where
    "fst (generate E opts G w) = fst (generateTryBlock E opts G) @ rest" "inPhases 8 9 rest"
    by blast
  with phases_tryBlock[of E opts G] have "inPhases 1 9 (fst (generate E opts G w))"
    by (auto intro!: inPhases_append[where mid = 8] intro: inPhases_mono)
  then show ?thesis by (simp add: inPhases_def)
qed

section \<open>The pipeline as a whole\<close>

lemma inPhasesD: "inPhases lo hi t \<Longrightarrow> ev \<in> set t \<Longrightarrow> lo \<le> phase ev \<and> phase ev \<le> hi"
  by (simp add: inPhases_def)

lemma assignedChunks_other: "(\<And>ev. ev \<in> set t \<Longrightarrow> phase ev \<noteq> 6) \<Longrightarrow> assignedChunks t = []"
proof (induction t)
  case Nil
  then show ?case by simp
next
  case (Cons ev t)
  then have "phase ev \<noteq> 6" and "assignedChunks t = []" by auto
  then show ?case by (cases ev) auto
qed

text \<open>A call of step 4 or later is only made once steps 1 to 3 have succeeded.\<close>

lemma tryBlock_late_event:
  assumes ev: "ev \<in> set (fst (generateTryBlock E opts G))" and late: "4 \<le> phase ev"
  shows "\<exists>b tg cs pre ad b' tp rp tf.
      hookRenderStart E [] = Inr b \<and> generateChunks E opts G = (tg, Inr cs) \<and>
      createAddons E b = Inr (ad, b') \<and>
      prerenderChunks E cs (commondir E (getAbsoluteEntryModulePaths E cs)) = (tp, rp) \<and>
      (case rp of
         Inl e \<Rightarrow> tf = []
       | Inr cs' \<Rightarrow> tf = fst (addFinalizedChunksToBundle E opts cs'
                               (commondir E (getAbsoluteEntryModulePaths E cs)) ad b')) \<and>
      fst (generateTryBlock E opts G) = pre @ tp @ tf \<and> inPhases 1 3 pre"
proof (cases "hookRenderStart E []")
  case (Inl e)
  with ev late show ?thesis by (simp add: generateTryBlock_def)
next
  case b: (Inr b)
  obtain tg rg where g: "generateChunks E opts G = (tg, rg)" by (cases "generateChunks E opts G")
  have tg: "inPhases 2 2 tg" using phases_generateChunks[of E opts G] g by simp
  show ?thesis
  proof (cases rg)
    case (Inl e)
    with ev late b g inPhasesD[OF tg, of ev] show ?thesis
      by (auto simp: generateTryBlock_def)
  next
    case cs: (Inr cs)
    let ?base = "commondir E (getAbsoluteEntryModulePaths E cs)"
    obtain tv rv where v: "(if length cs > 1 then validateOptionsForMultiChunkOutput E opts
        else ret ()) = (tv, rv)"
      by (cases "if length cs > 1 then validateOptionsForMultiChunkOutput E opts else ret ()")
    have "inPhases 2 2 (fst (if length cs > 1 then validateOptionsForMultiChunkOutput E opts
        else ret ()))"
      by (simp add: phases_validate)
    with v have tv: "inPhases 2 2 tv" by simp
    show ?thesis
    proof (cases rv)
      case (Inl e)
      with ev late b g cs v inPhasesD[OF tg, of ev] inPhasesD[OF tv, of ev] show ?thesis
        by (auto simp: generateTryBlock_def)
    next
      case u: (Inr u)
      show ?thesis
      proof (cases "createAddons E b")
        case (Inl e)
        with ev late b g cs v u inPhasesD[OF tg, of ev] inPhasesD[OF tv, of ev] show ?thesis
          by (auto simp: generateTryBlock_def)
      next
        case a: (Inr x)
        obtain ad b' where x: "x = (ad, b')" by (cases x)
        obtain tp rp where p: "prerenderChunks E cs ?base = (tp, rp)"
          by (cases "prerenderChunks E cs ?base")
        let ?pre = "EvHookRenderStart # tg @ tv @ [EvCreateAddons]"
        have pre: "inPhases 1 3 ?pre"
          using tg tv by (auto simp: inPhases_def sorted_append)
        show ?thesis
        proof (cases rp)
          case (Inl e)
          with b g cs v u a x p have "fst (generateTryBlock E opts G) = ?pre @ tp @ []"
            by (simp add: generateTryBlock_def)
          with b g cs a x p Inl pre show ?thesis by (intro exI conjI) auto
        next
          case (Inr cs')
          with b g cs v u a x p have "fst (generateTryBlock E opts G) =
              ?pre @ tp @ fst (addFinalizedChunksToBundle E opts cs' ?base ad b')"
            by (simp add: generateTryBlock_def)
          with b g cs a x p Inr pre show ?thesis by (intro exI conjI) auto
        qed
      qed
    qed
  qed
qed

lemma generate_late_event:
  assumes "ev \<in> set (fst (generate E opts G w))" and "phase ev \<le> 7"
  shows "ev \<in> set (fst (generateTryBlock E opts G))"
proof -
  from generate_trace[of E opts G w] obtain rest where
    t: "fst (generate E opts G w) = fst (generateTryBlock E opts G) @ rest" and r: "inPhases 8 9 rest"
    by blast
  from assms(2) inPhasesD[OF r, of ev] have "ev \<notin> set rest" by auto
  with assms(1) t show ?thesis by simp
qed

lemma generate_trace_subset:
  "set (fst (generateTryBlock E opts G)) \<subseteq> set (fst (generate E opts G w))"
  using generate_trace[of E opts G w] by auto

text \<open>
  C6. In every call of \<open>generate\<close> the calls are made in the order of the pipeline's
  steps: along the call log the step numbers never decrease, so every \<open>generateExports\<close>
  call comes before every \<open>preRender\<close> call, and every naming call before every
  \<open>render\<close> call. Moreover \<open>preRender\<close> is only called once \<open>generateExports\<close> has been
  called for every chunk of the generated list, and \<open>render\<close> only once every chunk of the
  list has been named.
\<close>

theorem phases_in_order:
  "sorted (map phase (fst (generate E opts G w))) \<and>
   (EvPreRender i \<in> set (fst (generate E opts G w)) \<longrightarrow>
      (\<exists>tg cs. generateChunks E opts G = (tg, Inr cs) \<and>
         (\<forall>j<length cs. EvGenerateExports j \<in> set (fst (generate E opts G w))))) \<and>
   (EvRender i \<in> set (fst (generate E opts G w)) \<longrightarrow>
      (\<exists>tg cs. generateChunks E opts G = (tg, Inr cs) \<and>
         set (assignedChunks (fst (generate E opts G w))) = {0..<length cs}))"
proof (intro conjI impI)
  show "sorted (map phase (fst (generate E opts G w)))" by (rule sorted_generate)
next
  assume "EvPreRender i \<in> set (fst (generate E opts G w))"
  then have ev: "EvPreRender i \<in> set (fst (generateTryBlock E opts G))"
    by (rule generate_late_event) simp
  from tryBlock_late_event[OF ev] obtain b tg cs pre ad b' tp rp tf where
    g: "generateChunks E opts G = (tg, Inr cs)"
    and p: "prerenderChunks E cs (commondir E (getAbsoluteEntryModulePaths E cs)) = (tp, rp)"
    and tf: "case rp of
         Inl e \<Rightarrow> tf = []
       | Inr cs' \<Rightarrow> tf = fst (addFinalizedChunksToBundle E opts cs'
                               (commondir E (getAbsoluteEntryModulePaths E cs)) ad b')"
    and t: "fst (generateTryBlock E opts G) = pre @ tp @ tf" and pre: "inPhases 1 3 pre"
    by auto
  have "inPhases 6 7 tf"
    using tf by (cases rp) (auto simp: phases_addFinalized)
  with ev t inPhasesD[OF pre, of "EvPreRender i"] inPhasesD[of 6 7 tf "EvPreRender i"]
  have in_tp: "EvPreRender i \<in> set tp" by auto
  from prerender_trace[OF p] obtain j k where
    tp: "tp = map EvGenerateExports [0..<j] @ map EvPreRender [0..<k]"
    and jk: "0 < k \<longrightarrow> j = length cs" by blast
  from in_tp tp have "0 < k" by auto
  with jk tp have "\<forall>j<length cs. EvGenerateExports j \<in> set tp" by auto
  with t generate_trace_subset[of E opts G w]
  have "\<forall>j<length cs. EvGenerateExports j \<in> set (fst (generate E opts G w))" by auto
  with g show "\<exists>tg cs. generateChunks E opts G = (tg, Inr cs) \<and>
         (\<forall>j<length cs. EvGenerateExports j \<in> set (fst (generate E opts G w)))" by blast
next
  assume "EvRender i \<in> set (fst (generate E opts G w))"
  then have ev: "EvRender i \<in> set (fst (generateTryBlock E opts G))"
    by (rule generate_late_event) simp
  from tryBlock_late_event[OF ev] obtain b tg cs pre ad b' tp rp tf where
    g: "generateChunks E opts G = (tg, Inr cs)"
    and p: "prerenderChunks E cs (commondir E (getAbsoluteEntryModulePaths E cs)) = (tp, rp)"
    and tf: "case rp of
         Inl e \<Rightarrow> tf = []
       | Inr cs' \<Rightarrow> tf = fst (addFinalizedChunksToBundle E opts cs'
                               (commondir E (getAbsoluteEntryModulePaths E cs)) ad b')"
    and t: "fst (generateTryBlock E opts G) = pre @ tp @ tf" and pre: "inPhases 1 3 pre"
    by auto
  let ?base = "commondir E (getAbsoluteEntryModulePaths E cs)"
  have ptp: "inPhases 4 5 tp" using phases_prerender[of E cs ?base] p by simp
  from ev t inPhasesD[OF pre, of "EvRender i"] inPhasesD[OF ptp, of "EvRender i"]
  have in_tf: "EvRender i \<in> set tf" by auto
  with tf obtain cs' where rp: "rp = Inr cs'"
    and tf': "tf = fst (addFinalizedChunksToBundle E opts cs' ?base ad b')"
    by (cases rp) auto
  from prerender_length[OF p[unfolded rp]] have len: "length cs' = length cs" .
  obtain ta ra where a: "assignChunkIds E opts cs' ?base ad b' = (ta, ra)"
    by (cases "assignChunkIds E opts cs' ?base ad b'")
  have pta: "inPhases 6 6 ta" using phases_assignChunkIds[of E opts cs' ?base ad b'] a by simp
  have "\<not> isl ra"
  proof
    assume "isl ra"
    then obtain e where "ra = Inl e" by (cases ra) auto
    with a tf' have "tf = ta" by (simp add: addFinalized_trace)
    with in_tf inPhasesD[OF pta, of "EvRender i"] show False by auto
  qed
  then obtain st where ra: "ra = Inr st" by (cases ra) auto
  obtain cs'' b1 where st: "st = (cs'', b1)" by (cases st)
  from a ra st tf' have tf'': "tf = ta @ map EvRender [0..<length cs'']"
    by (simp add: addFinalized_trace)
  from assign_loop_order[of E opts ?base ad "chunksForNaming cs'" "(cs', b')"] a ra
  have "assignedChunks ta = chunksForNaming cs'"
    by (simp add: assignChunkIds_def)
  then have A: "set (assignedChunks ta) = {0..<length cs}"
    by (simp add: set_chunksForNaming len)
  obtain rest where full: "fst (generate E opts G w) = (pre @ tp) @ ta @ (map EvRender [0..<length cs''] @ rest)"
    and rest: "inPhases 8 9 rest"
    using generate_trace[of E opts G w] t tf'' by auto
  have 1: "assignedChunks (pre @ tp) = []"
    using inPhasesD[OF pre] inPhasesD[OF ptp] by (intro assignedChunks_other) fastforce
  have 2: "assignedChunks (map EvRender [0..<length cs''] @ rest) = []"
    using inPhasesD[OF rest] by (intro assignedChunks_other) fastforce
  from full 1 2 have "assignedChunks (fst (generate E opts G w)) = assignedChunks ta"
    by (simp add: assignedChunks_append)
  with A g show "\<exists>tg cs. generateChunks E opts G = (tg, Inr cs) \<and>
         set (assignedChunks (fst (generate E opts G w))) = {0..<length cs}" by auto
qed

theorem phases_in_order_witness:
  "fst (generate exEnv exOptions exGraph False) =
     exTryLog @ [EvHookGenerateBundle False, EvContextParse ''chunk.js'',
       EvContextParse ''chunk2.js'',
       EvOnWarn (WarnChunkInvalid (snd (exBundle ! 1)) (ErrExternal ''SyntaxError'')),
       EvPluginFinaliseAssets] \<and>
   sorted (map phase (fst (generate exEnv exOptions exGraph False))) \<and>
   (\<exists>tg cs. generateChunks exEnv exOptions exGraph = (tg, Inr cs) \<and>
      (\<forall>j<length cs. EvGenerateExports j \<in> set (fst (generate exEnv exOptions exGraph False)))) \<and>
   (\<exists>tg cs. generateChunks exEnv exOptions exGraph = (tg, Inr cs) \<and>
      set (assignedChunks (fst (generate exEnv exOptions exGraph False))) = {0..<length cs})"
proof -
  have log: "fst (generate exEnv exOptions exGraph False) =
     exTryLog @ [EvHookGenerateBundle False, EvContextParse ''chunk.js'',
       EvContextParse ''chunk2.js'',
       EvOnWarn (WarnChunkInvalid (snd (exBundle ! 1)) (ErrExternal ''SyntaxError'')),
       EvPluginFinaliseAssets]"
    by code_simp
  have h1: "EvPreRender 0 \<in> set (fst (generate exEnv exOptions exGraph False))"
    unfolding log by (simp add: exTryLog_def)
  have h2: "EvRender 0 \<in> set (fst (generate exEnv exOptions exGraph False))"
    unfolding log by (simp add: exTryLog_def)
  from phases_in_order [of exEnv exOptions exGraph False 0] h1 h2 log show ?thesis by blast
qed

text \<open>
  C2 (as amended). The option conflicts of a build with several chunks are detected right
  after chunk generation, not before it. When the \<open>renderStart\<close> hook has returned,
  \<open>generateChunks\<close> has returned more than one chunk, and the format is \<open>umd\<close> or
  \<open>iife\<close> or \<open>output.file\<close> is set, \<open>validateOptionsForMultiChunkOutput\<close> throws the
  invalid-option error (the format is tested first); the call log of \<open>generate\<close> is the
  \<open>renderStart\<close> hook, the calls of chunk generation (all of step 2: module loading,
  chunk assignment, construction, link, facades), and the \<open>renderError\<close> hook with that
  error: no addon, export, pre-render, naming or render call is made. \<open>generate\<close>
  rejects, with that error when the \<open>renderError\<close> hook returns.
\<close>

theorem multi_chunk_options_checked_after_chunk_generation:
  assumes "hookRenderStart E [] = Inr b" and "generateChunks E opts G = (tg, Inr cs)"
    and "1 < length cs"
    and "format opts = ''umd'' \<or> format opts = ''iife'' \<or> outputFile opts \<noteq> None"
  shows "\<exists>err. validateOptionsForMultiChunkOutput E opts = ([], Inl err) \<and>
     (err = ErrInvalidOption ''output.format'' ''outputformat'' (Some (format opts)) \<or>
      err = ErrInvalidOption ''output.file'' ''outputdir'' None) \<and>
     fst (generate E opts G w) = EvHookRenderStart # tg @ [EvHookRenderError err] \<and>
     isl (snd (generate E opts G w)) \<and>
     (hookRenderError E err = Inr () \<longrightarrow> snd (generate E opts G w) = Inl err) \<and>
     inPhases 2 2 tg"
proof -
  have "\<exists>err. validateOptionsForMultiChunkOutput E opts = ([], Inl err) \<and>
     (err = ErrInvalidOption ''output.format'' ''outputformat'' (Some (format opts)) \<or>
      err = ErrInvalidOption ''output.file'' ''outputdir'' None)"
  proof (cases "format opts = ''umd'' \<or> format opts = ''iife''")
    case True
    then show ?thesis by (simp add: validateOptionsForMultiChunkOutput_def throw_def)
  next
    case False
    with assms(4) have "outputFile opts \<noteq> None" by simp
    with False show ?thesis by (simp add: validateOptionsForMultiChunkOutput_def throw_def)
  qed
  then obtain err where
    v: "validateOptionsForMultiChunkOutput E opts = ([], Inl err)"
    and e: "err = ErrInvalidOption ''output.format'' ''outputformat'' (Some (format opts)) \<or>
      err = ErrInvalidOption ''output.file'' ''outputdir'' None"
    by blast
  have "generateTryBlock E opts G = (EvHookRenderStart # tg, Inl err)"
    using assms(1,2,3) v by (simp add: generateTryBlock_def)
  from generate_failed[OF this, of w]
  have g: "generate E opts G w =
       ((EvHookRenderStart # tg) @ [EvHookRenderError err],
        case hookRenderError E err of Inl err' \<Rightarrow> Inl err' | Inr u \<Rightarrow> Inl err)" .
  have i: "isl (snd (generate E opts G w))"
    unfolding g by (cases "hookRenderError E err") simp_all
  have tg: "inPhases 2 2 tg" using phases_generateChunks[of E opts G] assms(2) by simp
  from v e g i tg show ?thesis by (intro exI[of _ err]) simp
qed

theorem multi_chunk_options_checked_after_chunk_generation_counterexample:
  "generate exEnv (exOptions\<lparr>format := ''iife''\<rparr>) exGraph False =
     ([EvHookRenderStart, EvGetChunkAssignments, EvNewChunk 0, EvNewChunk 1, EvLink 0, EvLink 1,
       EvGenerateFacades 0, EvGenerateFacades 1,
       EvHookRenderError (ErrInvalidOption ''output.format'' ''outputformat'' (Some ''iife''))],
      Inl (ErrInvalidOption ''output.format'' ''outputformat'' (Some ''iife'')))"
  by code_simp

theorem multi_chunk_options_checked_after_chunk_generation_witness:
  "\<exists>err. validateOptionsForMultiChunkOutput exEnv (exOptions\<lparr>outputFile := Some ''out.js''\<rparr>) =
       ([], Inl err) \<and>
     (err = ErrInvalidOption ''output.format'' ''outputformat''
              (Some (format (exOptions\<lparr>outputFile := Some ''out.js''\<rparr>))) \<or>
      err = ErrInvalidOption ''output.file'' ''outputdir'' None) \<and>
     fst (generate exEnv (exOptions\<lparr>outputFile := Some ''out.js''\<rparr>) exGraph True) =
       EvHookRenderStart # exGenLog @ [EvHookRenderError err] \<and>
     isl (snd (generate exEnv (exOptions\<lparr>outputFile := Some ''out.js''\<rparr>) exGraph True)) \<and>
     snd (generate exEnv (exOptions\<lparr>outputFile := Some ''out.js''\<rparr>) exGraph True) = Inl err \<and>
     inPhases 2 2 exGenLog"
proof -
  let ?opts = "exOptions\<lparr>outputFile := Some ''out.js''\<rparr>"
  have h1: "hookRenderStart exEnv [] = Inr []" by (simp add: exEnv_def)
  have h2: "generateChunks exEnv ?opts exGraph = (exGenLog, Inr (take 2 exChunks))"
    by code_simp
  have h3: "1 < length (take 2 exChunks)" by (simp add: exChunks_def)
  have h4: "format ?opts = ''umd'' \<or> format ?opts = ''iife'' \<or> outputFile ?opts \<noteq> None"
    by simp
  have h5: "hookRenderError exEnv e = Inr ()" for e by (simp add: exEnv_def)
  from multi_chunk_options_checked_after_chunk_generation [OF h1 h2 h3 h4, of True] h5
  show ?thesis by metis
qed

text \<open>
  C4 (as amended). When the \<open>try\<close> block of \<open>generate\<close> (steps 1 to 7) fails with a
  value, the call log is the log of the \<open>try\<close> block, all of steps 1 to 7, followed by
  one call of the \<open>renderError\<close> hook with that value, and \<open>generate\<close> rejects, so no
  bundle is returned: with the original value when the hook returns, with the hook's own
  failure when the hook itself fails.
\<close>

theorem failure_notifies_renderError:
  assumes "generateTryBlock E opts G = (t, Inl err)"
  shows "fst (generate E opts G w) = t @ [EvHookRenderError err] \<and>
     isl (snd (generate E opts G w)) \<and>
     (hookRenderError E err = Inr () \<longrightarrow> snd (generate E opts G w) = Inl err) \<and>
     (hookRenderError E err = Inl err' \<longrightarrow> snd (generate E opts G w) = Inl err') \<and>
     inPhases 1 7 t"
proof -
  have "inPhases 1 7 t" using phases_tryBlock[of E opts G] assms by simp
  then show ?thesis
    using assms by (cases "hookRenderError E err") (simp_all add: generate_def)
qed

theorem failure_notifies_renderError_counterexample:
  "snd (generateTryBlock exEnvLinkFails exOptions exGraph) = Inl (ErrExternal ''link failed'') \<and>
   generate exEnvLinkFails exOptions exGraph True =
     ([EvHookRenderStart, EvGetChunkAssignments, EvNewChunk 0, EvNewChunk 1, EvLink 0,
       EvHookRenderError (ErrExternal ''link failed'')],
      Inl (ErrExternal ''hook failed''))"
  by code_simp

theorem failure_notifies_renderError_witness:
  "fst (generate exEnvRenderFails exOptions exGraph True) =
     exTryLog @ [EvHookRenderError (ErrExternal ''render failed'')] \<and>
   isl (snd (generate exEnvRenderFails exOptions exGraph True)) \<and>
   snd (generate exEnvRenderFails exOptions exGraph True) = Inl (ErrExternal ''render failed'') \<and>
   inPhases 1 7 exTryLog \<and>
   fst (generate exEnvLinkFails exOptions exGraph True) =
     [EvHookRenderStart, EvGetChunkAssignments, EvNewChunk 0, EvNewChunk 1, EvLink 0] @
     [EvHookRenderError (ErrExternal ''link failed'')] \<and>
   snd (generate exEnvLinkFails exOptions exGraph True) = Inl (ErrExternal ''hook failed'')"
proof -
  have t1: "generateTryBlock exEnvRenderFails exOptions exGraph =
      (exTryLog, Inl (ErrExternal ''render failed''))"
    by code_simp
  have h1: "hookRenderError exEnvRenderFails (ErrExternal ''render failed'') = Inr ()"
    by code_simp
  have t2: "generateTryBlock exEnvLinkFails exOptions exGraph =
      ([EvHookRenderStart, EvGetChunkAssignments, EvNewChunk 0, EvNewChunk 1, EvLink 0],
       Inl (ErrExternal ''link failed''))"
    by code_simp
  have h2: "hookRenderError exEnvLinkFails (ErrExternal ''link failed'') =
      Inl (ErrExternal ''hook failed'')"
    by code_simp
  from failure_notifies_renderError [OF t1, of True] h1
    failure_notifies_renderError [OF t2, of True "ErrExternal ''hook failed''"] h2
  show ?thesis by blast
qed

text \<open>
  C10 (as amended). The \<open>renderError\<close> hook is called exactly when the \<open>try\<close> block
  fails, that is for a failure of steps 1 to 7, the \<open>renderStart\<close> hook included. When
  the \<open>try\<close> block has succeeded and the \<open>generateBundle\<close> hook fails, or the hook
  returns and \<open>finaliseAssets\<close> fails, \<open>generate\<close> rejects with that failure and the
  \<open>renderError\<close> hook is not called.
\<close>

theorem later_failures_not_notified:
  "((\<exists>e. EvHookRenderError e \<in> set (fst (generate E opts G w))) \<longleftrightarrow>
      isl (snd (generateTryBlock E opts G))) \<and>
   (generateTryBlock E opts G = (t, Inr b) \<and> hookGenerateBundle E w b = Inl err \<longrightarrow>
      generate E opts G w = (t @ [EvHookGenerateBundle w], Inl err)) \<and>
   (generateTryBlock E opts G = (t, Inr b) \<and> hookGenerateBundle E w b = Inr b' \<and>
    finaliseAssets E opts b' = (tf, Inl err) \<longrightarrow>
      generate E opts G w = (t @ EvHookGenerateBundle w # tf, Inl err))"
proof (intro conjI impI)
  from generate_trace[of E opts G w] obtain rest where
    t: "fst (generate E opts G w) = fst (generateTryBlock E opts G) @ rest"
    and f: "isl (snd (generateTryBlock E opts G)) \<longrightarrow>
        rest = [EvHookRenderError (projl (snd (generateTryBlock E opts G)))]"
    and s: "\<not> isl (snd (generateTryBlock E opts G)) \<longrightarrow> (\<forall>e. EvHookRenderError e \<notin> set rest)"
    by blast
  have "EvHookRenderError e \<notin> set (fst (generateTryBlock E opts G))" for e
    using inPhasesD[OF phases_tryBlock, of "EvHookRenderError e" E opts G] by auto
  with t f s show "(\<exists>e. EvHookRenderError e \<in> set (fst (generate E opts G w))) \<longleftrightarrow>
      isl (snd (generateTryBlock E opts G))"
    by auto
next
  assume "generateTryBlock E opts G = (t, Inr b) \<and> hookGenerateBundle E w b = Inl err"
  then show "generate E opts G w = (t @ [EvHookGenerateBundle w], Inl err)"
    by (simp add: generate_def)
next
  assume "generateTryBlock E opts G = (t, Inr b) \<and> hookGenerateBundle E w b = Inr b' \<and>
    finaliseAssets E opts b' = (tf, Inl err)"
  then show "generate E opts G w = (t @ EvHookGenerateBundle w # tf, Inl err)"
    by (simp add: generate_def)
qed

theorem later_failures_not_notified_counterexample:
  "generate exEnvStartFails exOptions exGraph True =
     ([EvHookRenderStart, EvHookRenderError (ErrExternal ''start failed'')],
      Inl (ErrExternal ''start failed''))"
  by code_simp

theorem later_failures_not_notified_witness:
  "((\<exists>e. EvHookRenderError e \<in> set (fst (generate exEnvBundleHookFails exOptions exGraph True))) \<longleftrightarrow>
      isl (snd (generateTryBlock exEnvBundleHookFails exOptions exGraph))) \<and>
   \<not> isl (snd (generateTryBlock exEnvBundleHookFails exOptions exGraph)) \<and>
   generate exEnvBundleHookFails exOptions exGraph True =
     (exTryLog @ [EvHookGenerateBundle True], Inl (ErrExternal ''generateBundle failed'')) \<and>
   generate exEnvAssetsFail exOptions exGraph True =
     (exTryLog @ EvHookGenerateBundle True #
        [EvContextParse ''chunk.js'', EvContextParse ''chunk2.js'',
         EvOnWarn (WarnChunkInvalid (snd (exBundle ! 1)) (ErrExternal ''SyntaxError'')),
         EvPluginFinaliseAssets],
      Inl (ErrExternal ''asset source not set''))"
proof -
  have t1: "generateTryBlock exEnvBundleHookFails exOptions exGraph = (exTryLog, Inr exBundle)"
    by code_simp
  have h1: "hookGenerateBundle exEnvBundleHookFails True exBundle =
      Inl (ErrExternal ''generateBundle failed'')"
    by code_simp
  have t2: "generateTryBlock exEnvAssetsFail exOptions exGraph = (exTryLog, Inr exBundle)"
    by code_simp
  have h2: "hookGenerateBundle exEnvAssetsFail True exBundle = Inr exBundle"
    by code_simp
  have h3: "finaliseAssets exEnvAssetsFail exOptions exBundle =
      ([EvContextParse ''chunk.js'', EvContextParse ''chunk2.js'',
        EvOnWarn (WarnChunkInvalid (snd (exBundle ! 1)) (ErrExternal ''SyntaxError'')),
        EvPluginFinaliseAssets],
       Inl (ErrExternal ''asset source not set''))"
    by code_simp
  have ok: "\<not> isl (snd (generateTryBlock exEnvBundleHookFails exOptions exGraph))"
    by (simp add: t1)
  from later_failures_not_notified [where E = exEnvBundleHookFails and opts = exOptions
      and G = exGraph and w = True and t = exTryLog and b = exBundle
      and err = "ErrExternal ''generateBundle failed''"] t1 h1
  have a: "((\<exists>e. EvHookRenderError e \<in> set (fst (generate exEnvBundleHookFails exOptions exGraph True))) \<longleftrightarrow>
      isl (snd (generateTryBlock exEnvBundleHookFails exOptions exGraph)))"
    and b: "generate exEnvBundleHookFails exOptions exGraph True =
     (exTryLog @ [EvHookGenerateBundle True], Inl (ErrExternal ''generateBundle failed''))"
    by blast+
  from later_failures_not_notified [where E = exEnvAssetsFail and opts = exOptions
      and G = exGraph and w = True and t = exTryLog and b = exBundle and b' = exBundle
      and tf = "[EvContextParse ''chunk.js'', EvContextParse ''chunk2.js'',
        EvOnWarn (WarnChunkInvalid (snd (exBundle ! 1)) (ErrExternal ''SyntaxError'')),
        EvPluginFinaliseAssets]" and err = "ErrExternal ''asset source not set''"] t2 h2 h3
  have c: "generate exEnvAssetsFail exOptions exGraph True =
     (exTryLog @ EvHookGenerateBundle True #
        [EvContextParse ''chunk.js'', EvContextParse ''chunk2.js'',
         EvOnWarn (WarnChunkInvalid (snd (exBundle ! 1)) (ErrExternal ''SyntaxError'')),
         EvPluginFinaliseAssets],
      Inl (ErrExternal ''asset source not set''))"
    by blast
  from a b c ok show ?thesis by blast
qed

section \<open>Validation of the bundle\<close>

lemma finaliseFile_ok:
  assumes "warnDeprecation E = Inr ()" and "\<forall>w. onwarn E w = Inr ()"
  shows "finaliseFile E opts f = (validationCalls E opts f, Inr (coerceLegacy f))"
  using assms
  by (cases "code f"; cases "contextParse E (the (code f))")
    (auto simp: finaliseFile_def validationCalls_def coerceLegacy_def call_def ret_def andThen_def)

lemma finaliseFiles_ok:
  assumes "warnDeprecation E = Inr ()" and "\<forall>w. onwarn E w = Inr ()"
  shows "finaliseFiles E opts b =
      (concat (map (validationCalls E opts \<circ> snd) b), Inr (map (\<lambda>(k, f). (k, coerceLegacy f)) b))"
proof (induction b)
  case Nil
  then show ?case by (simp add: ret_def)
next
  case (Cons p b)
  obtain k f where p: "p = (k, f)" by (cases p)
  show ?case by (simp add: p finaliseFile_ok[OF assms] Cons.IH)
qed

text \<open>
  C9 (as amended). When the deprecation notice, the warning handler and the plugin
  driver's \<open>finaliseAssets\<close> return normally, \<open>finaliseAssets\<close> returns the bundle in
  which exactly the entries whose \<open>type\<close> is missing or empty have become assets, each
  after a deprecation notice (an entry with any other \<open>type\<close> is left as it is); where
  validation is on and an entry has code, the code is parsed and a parse failure only
  makes a warning. \<open>generate\<close> then returns this bundle.
\<close>

theorem validation_warns_and_returns:
  assumes "warnDeprecation E = Inr ()" and "\<forall>w. onwarn E w = Inr ()"
    and "pluginFinaliseAssets E (map (\<lambda>(k, f). (k, coerceLegacy f)) b) = Inr ()"
  shows "finaliseAssets E opts b =
      (concat (map (validationCalls E opts \<circ> snd) b) @ [EvPluginFinaliseAssets],
       Inr (map (\<lambda>(k, f). (k, coerceLegacy f)) b)) \<and>
     (generateTryBlock E opts G = (t, Inr b0) \<and> hookGenerateBundle E w b0 = Inr b \<longrightarrow>
        snd (generate E opts G w) = Inr (map (\<lambda>(k, f). (k, coerceLegacy f)) b))"
proof -
  have fa: "finaliseAssets E opts b =
      (concat (map (validationCalls E opts \<circ> snd) b) @ [EvPluginFinaliseAssets],
       Inr (map (\<lambda>(k, f). (k, coerceLegacy f)) b))"
    by (simp add: finaliseAssets_def finaliseFiles_ok[OF assms(1,2)] assms(3))
  then show ?thesis by (simp add: generate_def)
qed

theorem validation_warns_and_returns_counterexample:
  "finaliseAssets exEnv exOptions [exLegacyBundle ! 2] =
     ([EvPluginFinaliseAssets],
      Inr [(''data.bin'', \<lparr>fileType = Some ''blob'', fileName = ''data.bin'', code = None,
              sourceMap = None\<rparr>)]) \<and>
   finaliseAssets exEnvAssetsFail exOptions [] =
     ([EvPluginFinaliseAssets], Inl (ErrExternal ''asset source not set'')) \<and>
   snd (generate exEnvAssetsFail exOptions exGraph True) =
     Inl (ErrExternal ''asset source not set'')"
  by code_simp

theorem validation_warns_and_returns_witness:
  "finaliseAssets exEnv exOptions exLegacyBundle =
     ([EvWarnDeprecation, EvContextParse ''chunk2.js'',
       EvOnWarn (WarnChunkInvalid (snd (exBundle ! 1)) (ErrExternal ''SyntaxError'')),
       EvPluginFinaliseAssets],
      Inr [(''notes.txt'', \<lparr>fileType = Some ''asset'', fileName = ''notes.txt'', code = None,
              sourceMap = None\<rparr>),
           exLegacyBundle ! 1, exLegacyBundle ! 2]) \<and>
   snd (generate exEnvLegacy exOptions exGraph True) =
     Inr (exBundle @ [(''notes.txt'', \<lparr>fileType = Some ''asset'', fileName = ''notes.txt'',
                         code = None, sourceMap = None\<rparr>)])"
proof -
  let ?legacy = "exBundle @ [(''notes.txt'',
        \<lparr>fileType = None, fileName = ''notes.txt'', code = None, sourceMap = None\<rparr>)]"
  have w1: "warnDeprecation exEnv = Inr ()" by (simp add: exEnv_def)
  have w2: "\<forall>w. onwarn exEnv w = Inr ()" by (simp add: exEnv_def)
  have w3: "pluginFinaliseAssets exEnv b = Inr ()" for b by (simp add: exEnv_def)
  have v1: "warnDeprecation exEnvLegacy = Inr ()" by (simp add: exEnvLegacy_def exEnv_def)
  have v2: "\<forall>w. onwarn exEnvLegacy w = Inr ()" by (simp add: exEnvLegacy_def exEnv_def)
  have v3: "pluginFinaliseAssets exEnvLegacy b = Inr ()" for b
    by (simp add: exEnvLegacy_def exEnv_def)
  have t: "generateTryBlock exEnvLegacy exOptions exGraph = (exTryLog, Inr exBundle)"
    by code_simp
  have h: "hookGenerateBundle exEnvLegacy True exBundle = Inr ?legacy"
    by code_simp
  have e1: "concat (map (validationCalls exEnv exOptions \<circ> snd) exLegacyBundle) @
      [EvPluginFinaliseAssets] =
      [EvWarnDeprecation, EvContextParse ''chunk2.js'',
       EvOnWarn (WarnChunkInvalid (snd (exBundle ! 1)) (ErrExternal ''SyntaxError'')),
       EvPluginFinaliseAssets]"
    by code_simp
  have e2: "map (\<lambda>(k, f). (k, coerceLegacy f)) exLegacyBundle =
      [(''notes.txt'', \<lparr>fileType = Some ''asset'', fileName = ''notes.txt'', code = None,
              sourceMap = None\<rparr>),
       exLegacyBundle ! 1, exLegacyBundle ! 2]"
    by code_simp
  have e3: "map (\<lambda>(k, f). (k, coerceLegacy f)) ?legacy =
      exBundle @ [(''notes.txt'', \<lparr>fileType = Some ''asset'', fileName = ''notes.txt'',
                         code = None, sourceMap = None\<rparr>)]"
    by code_simp
  from validation_warns_and_returns [OF w1 w2 w3, where b = exLegacyBundle and opts = exOptions]
  have a: "finaliseAssets exEnv exOptions exLegacyBundle =
      (concat (map (validationCalls exEnv exOptions \<circ> snd) exLegacyBundle) @
         [EvPluginFinaliseAssets],
       Inr (map (\<lambda>(k, f). (k, coerceLegacy f)) exLegacyBundle))"
    by blast
  from validation_warns_and_returns [OF v1 v2 v3, where b = "?legacy" and opts = exOptions
      and G = exGraph and t = exTryLog and ?b0.0 = exBundle and w = True] t h
  have b: "snd (generate exEnvLegacy exOptions exGraph True) =
      Inr (map (\<lambda>(k, f). (k, coerceLegacy f)) ?legacy)"
    by blast
  from a b e1 e2 e3 show ?thesis by simp
qed

end
